theory Spec2Isabelle
  imports Complex_Main
begin

section \<open>pdf2xls: the conversion routine and its collaborators\<close>

text \<open>
  The program is one Python module, \<^verbatim>\<open>pdf2xls.py\<close>: the unit converter
  \<^verbatim>\<open>mm_to_points\<close>, two sheet writers, the conversion routine
  \<^verbatim>\<open>pdf_to_excel\<close> and the entry point \<^verbatim>\<open>main\<close>. The PDF library
  (pdfplumber), the spreadsheet library (openpyxl) and the file system are
  collaborators: their answers are fields of an environment record, each call that can
  raise returns a sum with the exception on the left, and the calls whose order matters
  are recorded in an event trace.

  Python floats are modelled as \<^typ>\<open>real\<close>, Python's unbounded integers as
  \<^typ>\<open>int\<close>, and \<^verbatim>\<open>str\<close> as \<^typ>\<open>string\<close>.
\<close>

subsection \<open>Exceptions\<close>

text \<open>
  The exception classes the routine raises itself or meets when \<^verbatim>\<open>None\<close>
  reaches an operation. \<open>IOError\<close> is Python 3's alias of \<open>OSError\<close>.
  \<open>OtherException\<close> stands for any class derived from \<open>Exception\<close> that is not a
  subclass of one of the five classes the routine has an \<^verbatim>\<open>except\<close> clause for.
\<close>

datatype exn_class =
    FileNotFoundError | ValueError | IndexError | IOError | RuntimeError
  | TypeError | AttributeError | OtherException

datatype exn = Exn (cls: exn_class) (msg: string)

subsection \<open>Strings\<close>

text \<open>\<^verbatim>\<open>str.lower()\<close> on the letters A to Z; every other character is kept.\<close>

definition lower_char :: "char \<Rightarrow> char" where
  "lower_char c =
     (case map_of (zip ''ABCDEFGHIJKLMNOPQRSTUVWXYZ'' ''abcdefghijklmnopqrstuvwxyz'') c of
        Some l \<Rightarrow> l
      | None \<Rightarrow> c)"

definition lower :: "string \<Rightarrow> string" where
  "lower s = map lower_char s"

text \<open>The character \<^verbatim>\<open>'\<close>, which a string literal cannot end with.\<close>

definition apostrophe :: string where
  "apostrophe = [CHR 0x27]"

text \<open>\<^verbatim>\<open>s.endswith(suf)\<close>.\<close>

definition endswith :: "string \<Rightarrow> string \<Rightarrow> bool" where
  "endswith s suf =
     (length suf \<le> length s \<and> drop (length s - length suf) s = suf)"

text \<open>\<^verbatim>\<open>str(n)\<close> for an integer, as an f-string renders it: decimal digits, a leading
  minus sign for a negative number.\<close>

definition digit_char :: "nat \<Rightarrow> char" where
  "digit_char d = ''0123456789'' ! d"

function str_nat :: "nat \<Rightarrow> string" where
  "str_nat n = (if n < 10 then [digit_char n] else str_nat (n div 10) @ [digit_char (n mod 10)])"
  by pat_completeness auto
termination
  by (relation "measure (\<lambda>n. n)") auto

declare str_nat.simps [simp del]

definition str_int :: "int \<Rightarrow> string" where
  "str_int i = (if i < 0 then CHR ''-'' # str_nat (nat (- i)) else str_nat (nat i))"

subsection \<open>The unit converter\<close>

definition mm_to_points :: "real \<Rightarrow> real" where
  "mm_to_points mm = mm * 2.83465"

text \<open>
  The command line leaves an omitted height at \<^verbatim>\<open>None\<close>; the multiplication
  \<^verbatim>\<open>None * 2.83465\<close> raises \<open>TypeError\<close>.
\<close>

definition mm_to_points_call :: "real option \<Rightarrow> exn + real" where
  "mm_to_points_call mm =
     (case mm of
        None \<Rightarrow> Inl (Exn TypeError
                (''unsupported operand type(s) for *: 'NoneType' and 'float'' @ apostrophe))
      | Some v \<Rightarrow> Inr (mm_to_points v))"

subsection \<open>The spreadsheet collaborator\<close>

text \<open>
  A worksheet is a title and a sparse grid of cells keyed by (row, column); a cell holds a
  string or nothing (\<^verbatim>\<open>None\<close>). A workbook is the ordered list of its sheets.
\<close>

type_synonym cell_value = "string option"

record worksheet =
  title :: string
  cells :: "nat \<times> nat \<Rightarrow> cell_value option"

type_synonym workbook = "worksheet list"

text \<open>
  The library checks every string it stores (\<^verbatim>\<open>Cell.check_string\<close>): the string is
  cut to its first 32767 characters, and if one of the control characters U+0000 to
  U+0008, U+000B, U+000C or U+000E to U+001F remains, \<open>IllegalCharacterError\<close> is
  raised, a class derived from \<open>Exception\<close> and from none of the five handled ones. The
  message is that of release 3.1 of the library.
\<close>

definition illegal_characters :: string where
  "illegal_characters =
     [CHR 0x00, CHR 0x01, CHR 0x02, CHR 0x03, CHR 0x04, CHR 0x05, CHR 0x06, CHR 0x07, CHR 0x08,
      CHR 0x0B, CHR 0x0C,
      CHR 0x0E, CHR 0x0F, CHR 0x10, CHR 0x11, CHR 0x12, CHR 0x13, CHR 0x14, CHR 0x15, CHR 0x16,
      CHR 0x17, CHR 0x18, CHR 0x19, CHR 0x1A, CHR 0x1B, CHR 0x1C, CHR 0x1D, CHR 0x1E, CHR 0x1F]"

definition check_string :: "string \<Rightarrow> exn + string" where
  "check_string v =
     (let v' = take 32767 v
      in if list_ex (\<lambda>c. c \<in> set illegal_characters) v'
         then Inl (Exn OtherException (v' @ '' cannot be used in worksheets.''))
         else Inr v')"

text \<open>
  \<^verbatim>\<open>sheet.cell(row=r, column=c, value=v)\<close>: the cell is created when absent; then,
  unless \<open>v\<close> is \<^verbatim>\<open>None\<close>, the checked value is stored in it. When the check raises, the
  cell has been created already.
\<close>

definition cell :: "worksheet \<Rightarrow> nat \<Rightarrow> nat \<Rightarrow> cell_value \<Rightarrow> worksheet \<times> exn option" where
  "cell sheet row column v =
     (let sheet1 =
            (case cells sheet (row, column) of
               None \<Rightarrow> sheet\<lparr>cells := (cells sheet)((row, column) \<mapsto> None)\<rparr>
             | Some _ \<Rightarrow> sheet)
      in (case v of
            None \<Rightarrow> (sheet1, None)
          | Some s \<Rightarrow>
              (case check_string s of
                 Inl e \<Rightarrow> (sheet1, Some e)
               | Inr s' \<Rightarrow> (sheet1\<lparr>cells := (cells sheet1)((row, column) \<mapsto> Some s')\<rparr>, None))))"

text \<open>
  \<^verbatim>\<open>workbook.create_sheet(title=t)\<close> appends an empty sheet. The library alters a
  title only when the workbook already has a sheet of that title; the titles this routine
  passes are pairwise distinct (lemma \<open>saved_titles_distinct\<close> below).
\<close>

definition create_sheet :: "workbook \<Rightarrow> string \<Rightarrow> workbook" where
  "create_sheet wb t = wb @ [\<lparr>title = t, cells = Map.empty\<rparr>]"

text \<open>
  A \<^verbatim>\<open>for\<close> loop whose body may raise: the items are taken in order, each step
  continues from the state the previous one left, and the first exception ends the loop
  with the state reached so far.
\<close>

fun for_each :: "'a list \<Rightarrow> ('a \<Rightarrow> 's \<Rightarrow> 's \<times> exn option) \<Rightarrow> 's \<Rightarrow> 's \<times> exn option" where
  "for_each [] body s = (s, None)"
| "for_each (x # xs) body s =
     (case body x s of
        (s', Some e) \<Rightarrow> (s', Some e)
      | (s', None) \<Rightarrow> for_each xs body s')"

definition write_text_to_sheet :: "worksheet \<Rightarrow> string list \<Rightarrow> worksheet \<times> exn option" where
  "write_text_to_sheet sheet text_data =
     for_each (enumerate 1 text_data) (\<lambda>(i, line) sh. cell sh i 1 (Some line)) sheet"

definition write_table_to_sheet :: "worksheet \<Rightarrow> cell_value list list \<Rightarrow> worksheet \<times> exn option" where
  "write_table_to_sheet sheet table =
     for_each (enumerate 1 table)
       (\<lambda>(row_idx, row) sh.
          for_each (enumerate 1 row) (\<lambda>(col_idx, v) sh'. cell sh' row_idx col_idx v) sh)
       sheet"

subsection \<open>The PDF collaborator\<close>

type_synonym bbox = "real \<times> real \<times> real \<times> real"
type_synonym table = "cell_value list list"

record cropped_page =
  extract_text :: "exn + string option"
  extract_tables :: "exn + table list"

record page =
  width :: real
  height :: real
  within_bbox :: "bbox \<Rightarrow> exn + cropped_page"

type_synonym pdf = "page list"

text \<open>\<^verbatim>\<open>pdf.pages[i]\<close>: a negative index counts from the end; out of range raises
  \<open>IndexError\<close>.\<close>

definition pages_get :: "pdf \<Rightarrow> int \<Rightarrow> exn + page" where
  "pages_get pages i =
     (if 0 \<le> i \<and> i < int (length pages) then Inr (pages ! nat i)
      else if i < 0 \<and> - int (length pages) \<le> i then Inr (pages ! nat (int (length pages) + i))
      else Inl (Exn IndexError ''list index out of range''))"

subsection \<open>Environment and events\<close>

record env =
  path_exists :: "string \<Rightarrow> bool"
  pdfplumber_open :: "string \<Rightarrow> exn + pdf"
  Workbook_raises :: "exn option"
  workbook_save :: "string \<Rightarrow> workbook \<Rightarrow> exn option"

text \<open>
  \<open>OpenPdf\<close>: \<^verbatim>\<open>pdfplumber.open\<close> returned a document; \<open>OpenPdfFailed\<close>: it
  raised. \<open>Crop i box\<close>: \<^verbatim>\<open>pdf.pages[i].within_bbox(box)\<close> was called.
  \<open>ClosePdf\<close>: \<^verbatim>\<open>pdf.close()\<close>. \<open>Save path wb\<close>: \<^verbatim>\<open>workbook.save(path)\<close>
  was called with the workbook in state \<open>wb\<close>. \<open>Print\<close>: a line on standard output.
  \<open>LogInfo\<close>: a record handed to the logger.
\<close>

datatype event =
    OpenPdf string | OpenPdfFailed string | Crop int bbox | ClosePdf
  | Save string workbook | Print string | LogInfo string

subsection \<open>The page loop\<close>

text \<open>
  The mutable locals of \<^verbatim>\<open>pdf_to_excel\<close> while it iterates: the workbook under
  construction, the list \<^verbatim>\<open>all_text\<close>, and the trace so far.
\<close>

record loop_state =
  workbook :: workbook
  all_text :: "string list"
  trace :: "event list"

text \<open>
  \<^verbatim>\<open>table_sheet = workbook.create_sheet(title=...)\<close> followed by
  \<^verbatim>\<open>write_table_to_sheet(table_sheet, table)\<close>: the new sheet is the last one of the
  workbook and is filled in place.
\<close>

definition add_table_sheet :: "int \<Rightarrow> nat \<Rightarrow> table \<Rightarrow> workbook \<Rightarrow> workbook \<times> exn option" where
  "add_table_sheet i table_idx tbl wb =
     (let wb' = create_sheet wb (''Table_Page_'' @ str_int (i + 1) @ ''_'' @ str_nat table_idx);
          k = length wb' - 1
      in (case write_table_to_sheet (wb' ! k) tbl of
            (sh, r) \<Rightarrow> (wb'[k := sh], r)))"

text \<open>One iteration of the loop body, lines 129 to 150, for the index \<open>i\<close>.\<close>

definition process_page :: "pdf \<Rightarrow> real \<Rightarrow> real \<Rightarrow> int \<Rightarrow> loop_state \<Rightarrow> loop_state \<times> exn option" where
  "process_page pages header_height footer_height i st =
     (case pages_get pages i of
        Inl _ \<Rightarrow>
          (st, Some (Exn IndexError
             (''Page '' @ str_int (i + 1) @ '' is out of range. The PDF has ''
                @ str_nat (length pages) @ '' pages.'')))
      | Inr page \<Rightarrow>
          (let page_height = height page;
               cropping_box = (0, header_height, width page, page_height - footer_height);
               st1 = st\<lparr>trace := trace st @ [Crop i cropping_box]\<rparr>
           in (case within_bbox page cropping_box of
                 Inl e \<Rightarrow> (st1, Some e)
               | Inr cropped \<Rightarrow>
                   (case extract_text cropped of
                      Inl e \<Rightarrow> (st1, Some e)
                    | Inr page_text \<Rightarrow>
                        (let st2 =
                           (case page_text of
                              None \<Rightarrow> st1
                            | Some t \<Rightarrow>
                                (if t = [] then st1
                                 else st1\<lparr>all_text := all_text st1 @
                                        [''Page '' @ str_int (i + 1) @ '':'' @ [CHR 0x0A] @ t]\<rparr>))
                         in (case extract_tables cropped of
                               Inl e \<Rightarrow> (st2, Some e)
                             | Inr tables \<Rightarrow>
                                 (case for_each (enumerate 1 tables)
                                         (\<lambda>(table_idx, tbl) wb. add_table_sheet i table_idx tbl wb)
                                         (workbook st2) of
                                    (wb, r) \<Rightarrow> (st2\<lparr>workbook := wb\<rparr>, r))))))))"

text \<open>The \<^verbatim>\<open>for\<close> loop over the indices: the first exception ends it.\<close>

fun page_loop :: "pdf \<Rightarrow> real \<Rightarrow> real \<Rightarrow> int list \<Rightarrow> loop_state \<Rightarrow> loop_state \<times> exn option" where
  "page_loop pages header_height footer_height [] st = (st, None)"
| "page_loop pages header_height footer_height (i # is) st =
     (case process_page pages header_height footer_height i st of
        (st', Some e) \<Rightarrow> (st', Some e)
      | (st', None) \<Rightarrow> page_loop pages header_height footer_height is st')"

text \<open>
  \<^verbatim>\<open>range(start_page - 1, end_page)\<close>. An omitted page number is \<^verbatim>\<open>None\<close>, and
  the subtraction, or \<^verbatim>\<open>range\<close> itself, raises \<open>TypeError\<close>.
\<close>

definition page_range :: "int option \<Rightarrow> int option \<Rightarrow> exn + int list" where
  "page_range start_page end_page =
     (case start_page of
        None \<Rightarrow> Inl (Exn TypeError
                 (''unsupported operand type(s) for -: 'NoneType' and 'int'' @ apostrophe))
      | Some s \<Rightarrow>
          (case end_page of
             None \<Rightarrow> Inl (Exn TypeError
                      (apostrophe @ ''NoneType' object cannot be interpreted as an integer''))
           | Some e \<Rightarrow> Inr [s - 1 .. e - 1]))"

text \<open>
  Lines 126 to 156: the \<^verbatim>\<open>try\<close> around the loop, whose \<^verbatim>\<open>except Exception\<close>
  re-raises everything as \<open>RuntimeError\<close>, and whose \<^verbatim>\<open>finally\<close> closes the document.
  The \<^verbatim>\<open>range\<close> expression is evaluated inside the \<^verbatim>\<open>try\<close>.
\<close>

definition page_loop_try ::
  "pdf \<Rightarrow> real \<Rightarrow> real \<Rightarrow> int option \<Rightarrow> int option \<Rightarrow> loop_state \<Rightarrow> loop_state \<times> exn option" where
  "page_loop_try pages header_height footer_height start_page end_page st =
     (let (st', r) =
            (case page_range start_page end_page of
               Inl e \<Rightarrow> (st, Some e)
             | Inr idxs \<Rightarrow> page_loop pages header_height footer_height idxs st);
          r' = map_option (\<lambda>e. Exn RuntimeError (''Error processing PDF pages: '' @ msg e)) r
      in (st'\<lparr>trace := trace st' @ [ClosePdf]\<rparr>, r'))"

subsection \<open>The conversion routine\<close>

text \<open>
  Lines 119 to 124, once the document is open: \<^verbatim>\<open>Workbook()\<close> comes with one
  sheet, which is renamed, and \<^verbatim>\<open>all_text\<close> starts empty. \<^verbatim>\<open>text_sheet\<close> stays
  an alias of the first sheet of the workbook.
\<close>

definition initial_state :: "string \<Rightarrow> loop_state" where
  "initial_state input_file =
     \<lparr>workbook = [\<lparr>title = ''Text_Body'', cells = Map.empty\<rparr>],
      all_text = [], trace = [OpenPdf input_file]\<rparr>"

text \<open>
  The body of the outer \<^verbatim>\<open>try\<close>, lines 98 to 167: the trace, and the exception that
  leaves the body if there is one.
\<close>

definition pdf_to_excel_try ::
  "env \<Rightarrow> string \<Rightarrow> string option \<Rightarrow> int option \<Rightarrow> int option \<Rightarrow> real option \<Rightarrow> real option
     \<Rightarrow> event list \<times> exn option" where
  "pdf_to_excel_try env input_file output_file start_page end_page header_height_mm footer_height_mm =
     (if \<not> path_exists env input_file then
        ([], Some (Exn FileNotFoundError
           (''The input file '' @ apostrophe @ input_file @ apostrophe @ '' does not exist.'')))
      else if \<not> endswith (lower input_file) ''.pdf'' then
        ([], Some (Exn ValueError ''The input file must be a PDF.''))
      else
       (case output_file of
          None \<Rightarrow>
            ([], Some (Exn AttributeError
               (apostrophe @ ''NoneType' object has no attribute 'lower'' @ apostrophe)))
        | Some out \<Rightarrow>
            (if \<not> endswith (lower out) ''.xlsx'' then
               ([], Some (Exn ValueError ''The output file must have an .xlsx extension.''))
             else
              (case mm_to_points_call header_height_mm of
                 Inl e \<Rightarrow> ([], Some e)
               | Inr header_height \<Rightarrow>
              (case mm_to_points_call footer_height_mm of
                 Inl e \<Rightarrow> ([], Some e)
               | Inr footer_height \<Rightarrow>
              (case pdfplumber_open env input_file of
                 Inl e \<Rightarrow>
                   ([OpenPdfFailed input_file],
                    Some (Exn IOError (''Failed to open the PDF file: '' @ msg e)))
               | Inr pages \<Rightarrow>
              (case Workbook_raises env of
                 Some e \<Rightarrow> ([OpenPdf input_file], Some e)
               | None \<Rightarrow>
                     (case page_loop_try pages header_height footer_height
                              start_page end_page (initial_state input_file) of
                         (st', Some e) \<Rightarrow> (trace st', Some e)
                       | (st', None) \<Rightarrow>
                           (case write_text_to_sheet (workbook st' ! 0) (all_text st') of
                              (sh, Some e) \<Rightarrow> (trace st', Some e)
                            | (sh, None) \<Rightarrow>
                                (let wb = (workbook st')[0 := sh]
                                 in (case workbook_save env out wb of
                                       Some e \<Rightarrow>
                                         (trace st' @ [Save out wb],
                                          Some (Exn IOError
                                            (''Failed to save the Excel file: '' @ msg e)))
                                     | None \<Rightarrow>
                                         (trace st' @
                                            [Save out wb,
                                             Print (''PDF data successfully converted to '' @ out)],
                                          None))))))))))))"

text \<open>
  The \<^verbatim>\<open>except\<close> clauses of lines 169 to 178, in their order: the prefix each one
  prints, or \<open>None\<close> for a class no clause matches.
\<close>

fun except_clause :: "exn_class \<Rightarrow> string option" where
  "except_clause FileNotFoundError = Some ''File error: ''"
| "except_clause ValueError = Some ''Value error: ''"
| "except_clause IndexError = Some ''Index error: ''"
| "except_clause IOError = Some ''I/O error: ''"
| "except_clause RuntimeError = Some ''Runtime error: ''"
| "except_clause _ = None"

datatype 'a completion = Returned 'a | Raised exn

definition pdf_to_excel ::
  "env \<Rightarrow> string \<Rightarrow> string option \<Rightarrow> int option \<Rightarrow> int option \<Rightarrow> real option \<Rightarrow> real option
     \<Rightarrow> event list \<times> unit completion" where
  "pdf_to_excel env input_file output_file start_page end_page header_height_mm footer_height_mm =
     (case pdf_to_excel_try env input_file output_file start_page end_page
             header_height_mm footer_height_mm of
        (tr, None) \<Rightarrow> (tr, Returned ())
      | (tr, Some e) \<Rightarrow>
          (case except_clause (cls e) of
             Some prefix \<Rightarrow> (tr @ [Print (prefix @ msg e)], Returned ())
           | None \<Rightarrow> (tr, Raised e)))"

subsection \<open>The entry point\<close>

text \<open>The namespace \<^verbatim>\<open>parser.parse_args()\<close> returns; \<^verbatim>\<open>--input_file\<close> is the
  only required argument.\<close>

record args =
  args_input_file :: string
  args_output_file :: "string option"
  args_start_page :: "int option"
  args_end_page :: "int option"
  args_header_height_mm :: "real option"
  args_footer_height_mm :: "real option"
  args_verbose :: bool

text \<open>\<^verbatim>\<open>main\<close> from line 207 on, after the arguments are parsed.\<close>

definition main :: "env \<Rightarrow> args \<Rightarrow> event list \<times> int completion" where
  "main env a =
     (let tr0 = (if args_verbose a then [Print ''Verbose mode is enabled.''] else [])
      in case pdf_to_excel env (args_input_file a) (args_output_file a) (args_start_page a)
                (args_end_page a) (args_header_height_mm a) (args_footer_height_mm a) of
           (tr, Raised e) \<Rightarrow> (tr0 @ tr, Raised e)
         | (tr, Returned _) \<Rightarrow> (tr0 @ tr @ [LogInfo ''Hello World!''], Returned 0))"

subsection \<open>The vocabulary of the specification\<close>

text \<open>
  The specification speaks of 1-based page numbers \<open>n\<close>, of the text and the tables found
  on page \<open>n\<close> inside the crop region, and of the sheets that result. These definitions
  follow its words; the theorems below compare them with what the routine computes.
  \<open>page_view\<close> is the cropped view of page \<open>n\<close>, looked up as the loop does, at index
  \<open>n - 1\<close>.
\<close>

definition page_view :: "pdf \<Rightarrow> real \<Rightarrow> real \<Rightarrow> int \<Rightarrow> exn + cropped_page" where
  "page_view pages header_pts footer_pts n =
     (case pages_get pages (n - 1) of
        Inl e \<Rightarrow> Inl e
      | Inr p \<Rightarrow> within_bbox p (0, header_pts, width p, height p - footer_pts))"

text \<open>The text block of page \<open>n\<close>: \<open>"Page {n}:\n{text}"\<close> when the text is non-empty,
  nothing otherwise.\<close>

definition page_text_block :: "pdf \<Rightarrow> real \<Rightarrow> real \<Rightarrow> int \<Rightarrow> string list" where
  "page_text_block pages header_pts footer_pts n =
     (case page_view pages header_pts footer_pts n of
        Inl _ \<Rightarrow> []
      | Inr v \<Rightarrow>
          (case extract_text v of
             Inl _ \<Rightarrow> []
           | Inr None \<Rightarrow> []
           | Inr (Some t) \<Rightarrow>
               (if t = [] then [] else [''Page '' @ str_int n @ '':'' @ [CHR 0x0A] @ t])))"

definition page_tables :: "pdf \<Rightarrow> real \<Rightarrow> real \<Rightarrow> int \<Rightarrow> table list" where
  "page_tables pages header_pts footer_pts n =
     (case page_view pages header_pts footer_pts n of
        Inl _ \<Rightarrow> []
      | Inr v \<Rightarrow> (case extract_tables v of Inl _ \<Rightarrow> [] | Inr ts \<Rightarrow> ts))"

text \<open>
  What a sheet keeps of a value it is given, the first 32767 characters of a string, and
  the values it accepts, those without a control character among these characters.
\<close>

definition stored :: "cell_value \<Rightarrow> cell_value" where
  "stored v = map_option (take 32767) v"

definition storable :: "cell_value \<Rightarrow> bool" where
  "storable v =
     (case v of
        None \<Rightarrow> True
      | Some s \<Rightarrow> \<not> list_ex (\<lambda>c. c \<in> set illegal_characters) (take 32767 s))"

definition stored_table :: "table \<Rightarrow> table" where
  "stored_table tbl = map (map stored) tbl"

definition storable_table :: "table \<Rightarrow> bool" where
  "storable_table tbl = list_all (list_all storable) tbl"

text \<open>The sheet \<open>"Table_Page_{n}_{k}"\<close>: the table's cells verbatim, row-major, from
  row 1 and column 1, and no other cell.\<close>

definition table_sheet :: "int \<Rightarrow> nat \<Rightarrow> table \<Rightarrow> worksheet" where
  "table_sheet n k tbl =
     \<lparr>title = ''Table_Page_'' @ str_int n @ ''_'' @ str_nat k,
      cells = (\<lambda>(r, c). if 1 \<le> r \<and> r \<le> length tbl \<and> 1 \<le> c \<and> c \<le> length (tbl ! (r - 1))
                        then Some (tbl ! (r - 1) ! (c - 1)) else None)\<rparr>"

text \<open>The sheets of the tables of page \<open>n\<close>, each holding what it keeps of its table.\<close>

definition page_table_sheets :: "pdf \<Rightarrow> real \<Rightarrow> real \<Rightarrow> int \<Rightarrow> worksheet list" where
  "page_table_sheets pages header_pts footer_pts n =
     map (\<lambda>(k, tbl). table_sheet n k (stored_table tbl))
         (enumerate 1 (page_tables pages header_pts footer_pts n))"

text \<open>The sheet \<open>"Text_Body"\<close>: entry \<open>j\<close> at row \<open>j\<close>, column 1, and no other cell.\<close>

definition text_sheet :: "string list \<Rightarrow> worksheet" where
  "text_sheet entries =
     \<lparr>title = ''Text_Body'',
      cells = (\<lambda>(r, c). if c = 1 \<and> 1 \<le> r \<and> r \<le> length entries
                        then Some (Some (entries ! (r - 1))) else None)\<rparr>"

subsection \<open>Example documents and environments\<close>

text \<open>A page of A4 size whose text and tables do not depend on the crop region.\<close>

definition example_page :: "string option \<Rightarrow> table list \<Rightarrow> page" where
  "example_page t ts =
     \<lparr>width = 595, height = 842,
      within_bbox = (\<lambda>_. Inr \<lparr>extract_text = Inr t, extract_tables = Inr ts\<rparr>)\<rparr>"

text \<open>A page whose text extraction raises.\<close>

definition failing_page :: "exn \<Rightarrow> page" where
  "failing_page e =
     \<lparr>width = 595, height = 842,
      within_bbox = (\<lambda>_. Inr \<lparr>extract_text = Inl e, extract_tables = Inr []\<rparr>)\<rparr>"

text \<open>A file system holding \<^verbatim>\<open>report.pdf\<close>, \<^verbatim>\<open>REPORT.PDF\<close> and
  \<^verbatim>\<open>report.txt\<close>; the document has the given pages, and nothing fails.\<close>

definition example_env :: "pdf \<Rightarrow> env" where
  "example_env pages =
     \<lparr>path_exists = (\<lambda>p. p \<in> {''report.pdf'', ''REPORT.PDF'', ''report.txt''}),
      pdfplumber_open = (\<lambda>_. Inr pages),
      Workbook_raises = None,
      workbook_save = (\<lambda>_ _. None)\<rparr>"

text \<open>A table of two rows and two columns whose last cell is empty.\<close>

definition two_by_two :: table where
  "two_by_two = [[Some ''a'', Some ''b''], [Some ''c'', None]]"

text \<open>Parsed arguments with both heights 0 and \<^verbatim>\<open>--verbose\<close> off.\<close>

definition example_args :: "string \<Rightarrow> string option \<Rightarrow> int option \<Rightarrow> int option \<Rightarrow> args" where
  "example_args inp out sp ep =
     \<lparr>args_input_file = inp, args_output_file = out, args_start_page = sp, args_end_page = ep,
      args_header_height_mm = Some 0, args_footer_height_mm = Some 0, args_verbose = False\<rparr>"

text \<open>Two documents of two pages: text extraction raises on the first page of one and on
  the second page of the other, with the same message.\<close>

definition first_page_failing :: pdf where
  "first_page_failing = [failing_page (Exn OtherException ''boom''), example_page (Some ''x'') []]"

definition second_page_failing :: pdf where
  "second_page_failing = [example_page (Some ''x'') [], failing_page (Exn OtherException ''boom'')]"

text \<open>The same environment, except that the constructor \<^verbatim>\<open>Workbook()\<close> raises.\<close>

definition workbook_failing_env :: "pdf \<Rightarrow> env" where
  "workbook_failing_env pages =
     (example_env pages)\<lparr>Workbook_raises := Some (Exn OtherException ''out of memory'')\<rparr>"

text \<open>A string of 32768 characters, one more than a cell keeps.\<close>

definition long_string :: string where
  "long_string = replicate 32768 (CHR ''a'')"

text \<open>A string with the control character U+0001.\<close>

definition control_string :: string where
  "control_string = [CHR ''a'', CHR 0x01]"

section \<open>Properties\<close>

subsection \<open>Validation\<close>

text \<open>
  Claim C3. The three validations come before any call to a collaborator other than the
  existence test, so the trace of the failing body is empty: no file has been opened.
  A missing input raises \<open>FileNotFoundError\<close>, whatever its suffix, since existence is
  tested first; an existing input whose lower-cased name does not end in \<open>.pdf\<close> raises
  \<open>ValueError\<close>; and once the input has passed, an output name whose lower-cased form
  does not end in \<open>.xlsx\<close> raises \<open>ValueError\<close>.
\<close>

theorem validation_kinds_and_order:
  "(\<not> path_exists env inp \<longrightarrow>
      pdf_to_excel_try env inp out sp ep hh fh =
        ([], Some (Exn FileNotFoundError
               (''The input file '' @ apostrophe @ inp @ apostrophe @ '' does not exist.''))))
   \<and> (path_exists env inp \<and> \<not> endswith (lower inp) ''.pdf'' \<longrightarrow>
      pdf_to_excel_try env inp out sp ep hh fh =
        ([], Some (Exn ValueError ''The input file must be a PDF.'')))
   \<and> (path_exists env inp \<and> endswith (lower inp) ''.pdf'' \<and> \<not> endswith (lower out') ''.xlsx'' \<longrightarrow>
      pdf_to_excel_try env inp (Some out') sp ep hh fh =
        ([], Some (Exn ValueError ''The output file must have an .xlsx extension.'')))"
  by (simp add: pdf_to_excel_try_def)

theorem validation_kinds_and_order_witness:
  "\<not> path_exists (example_env []) ''missing.txt''
   \<and> pdf_to_excel_try (example_env []) ''missing.txt'' (Some ''out.xlsx'') (Some 1) (Some 1) (Some 0) (Some 0) =
        ([], Some (Exn FileNotFoundError
               (''The input file '' @ apostrophe @ ''missing.txt'' @ apostrophe @ '' does not exist.'')))
   \<and> path_exists (example_env []) ''report.txt'' \<and> \<not> endswith (lower ''report.txt'') ''.pdf''
   \<and> pdf_to_excel_try (example_env []) ''report.txt'' (Some ''out.xlsx'') (Some 1) (Some 1) (Some 0) (Some 0) =
        ([], Some (Exn ValueError ''The input file must be a PDF.''))
   \<and> path_exists (example_env []) ''REPORT.PDF'' \<and> endswith (lower ''REPORT.PDF'') ''.pdf''
   \<and> \<not> endswith (lower ''out.csv'') ''.xlsx''
   \<and> pdf_to_excel_try (example_env []) ''REPORT.PDF'' (Some ''out.csv'') (Some 1) (Some 1) (Some 0) (Some 0) =
        ([], Some (Exn ValueError ''The output file must have an .xlsx extension.''))"
  using validation_kinds_and_order
          [of "example_env []" "''missing.txt''" "Some ''out.xlsx''" "Some 1" "Some 1" "Some 0" "Some 0"]
        validation_kinds_and_order
          [of "example_env []" "''report.txt''" "Some ''out.xlsx''" "Some 1" "Some 1" "Some 0" "Some 0"]
        validation_kinds_and_order
          [of "example_env []" "''REPORT.PDF''" _ _ _ _ _ "''out.csv''"]
  by (simp add: example_env_def lower_def lower_char_def endswith_def)

subsection \<open>The sheet writers\<close>

text \<open>
  A value is accepted exactly when it is storable, and a sheet that is still empty where
  the writer goes ends up holding what it keeps of each value.
\<close>

lemma storable_check: "storable (Some s) \<Longrightarrow> check_string s = Inr (take 32767 s)"
  by (simp add: storable_def check_string_def Let_def)

lemma unstorable_check:
  "\<not> storable (Some s) \<Longrightarrow>
     check_string s = Inl (Exn OtherException (take 32767 s @ '' cannot be used in worksheets.''))"
  by (simp add: storable_def check_string_def Let_def)

lemma cell_storable:
  "cells sh (r, c) = None \<Longrightarrow> storable v \<Longrightarrow>
     cell sh r c v = (sh\<lparr>cells := (cells sh)((r, c) \<mapsto> stored v)\<rparr>, None)"
  by (cases v) (simp_all add: cell_def Let_def stored_def storable_check)

lemma cell_storable_any: "storable v \<Longrightarrow> \<exists>sh'. cell sh r c v = (sh', None)"
  by (cases v) (simp_all add: cell_def Let_def storable_check split: option.splits)

lemma cell_unstorable: "\<not> storable v \<Longrightarrow> \<exists>sh' x. cell sh r c v = (sh', Some x)"
  by (cases v) (simp_all add: cell_def Let_def unstorable_check storable_def)

lemma write_row_fails:
  "\<not> list_all storable vs \<Longrightarrow>
     \<exists>sh' x. for_each (enumerate c0 vs) (\<lambda>(c, v) sh'. cell sh' r c v) sh = (sh', Some x)"
proof (induction vs arbitrary: c0 sh)
  case Nil
  then show ?case by simp
next
  case (Cons v vs)
  show ?case
  proof (cases "storable v")
    case True
    from cell_storable_any[OF True, of sh r c0]
    obtain sh1 where s1: "cell sh r c0 v = (sh1, None)" ..
    from Cons.prems True have "\<not> list_all storable vs" by simp
    from Cons.IH[OF this, of "Suc c0" sh1] show ?thesis by (simp add: s1)
  next
    case False
    from cell_unstorable[OF this, of sh r c0] show ?thesis by auto
  qed
qed

lemma write_row_cells:
  assumes "\<forall>c \<ge> c0. cells sh (r, c) = None" and "list_all storable vs"
  shows "for_each (enumerate c0 vs) (\<lambda>(c, v) sh'. cell sh' r c v) sh =
         (sh\<lparr>cells := (\<lambda>(r', c'). if r' = r \<and> c0 \<le> c' \<and> c' < c0 + length vs
                          then Some (stored (vs ! (c' - c0))) else cells sh (r', c'))\<rparr>, None)"
  using assms
proof (induction vs arbitrary: c0 sh)
  case Nil
  show ?case by (cases sh) (auto simp: fun_eq_iff)
next
  case (Cons v vs)
  let ?sh1 = "sh\<lparr>cells := (cells sh)((r, c0) \<mapsto> stored v)\<rparr>"
  have s1: "cell sh r c0 v = (?sh1, None)" using Cons.prems by (simp add: cell_storable)
  have fresh: "\<forall>c \<ge> Suc c0. cells ?sh1 (r, c) = None" using Cons.prems by simp
  have ok: "list_all storable vs" using Cons.prems by simp
  have "for_each (enumerate c0 (v # vs)) (\<lambda>(c, v) sh'. cell sh' r c v) sh
        = for_each (enumerate (Suc c0) vs) (\<lambda>(c, v) sh'. cell sh' r c v) ?sh1"
    by (simp add: s1)
  also have "\<dots> = (?sh1\<lparr>cells := (\<lambda>(r', c'). if r' = r \<and> Suc c0 \<le> c' \<and> c' < Suc c0 + length vs
                          then Some (stored (vs ! (c' - Suc c0))) else cells ?sh1 (r', c'))\<rparr>, None)"
    by (rule Cons.IH[OF fresh ok])
  also have "\<dots> = (sh\<lparr>cells := (\<lambda>(r', c'). if r' = r \<and> c0 \<le> c' \<and> c' < c0 + length (v # vs)
                          then Some (stored ((v # vs) ! (c' - c0))) else cells sh (r', c'))\<rparr>, None)"
    by (auto simp: fun_eq_iff nth_Cons' Suc_diff_Suc intro!: arg_cong[where f="\<lambda>f. sh\<lparr>cells := f\<rparr>"])
  finally show ?case .
qed

lemma write_row_ok_any:
  "list_all storable vs \<Longrightarrow>
     \<exists>sh'. for_each (enumerate c0 vs) (\<lambda>(c, v) sh'. cell sh' r c v) sh = (sh', None)"
proof (induction vs arbitrary: c0 sh)
  case Nil
  then show ?case by simp
next
  case (Cons v vs)
  then have "storable v" and ok: "list_all storable vs" by simp_all
  from cell_storable_any[OF this(1), of sh r c0]
  obtain sh1 where s1: "cell sh r c0 v = (sh1, None)" ..
  from Cons.IH[OF ok, of "Suc c0" sh1] show ?case by (simp add: s1)
qed

lemma write_rows_fails:
  "\<not> list_all (list_all storable) rows \<Longrightarrow>
     \<exists>sh' x. for_each (enumerate r0 rows)
                (\<lambda>(r, row) sh'. for_each (enumerate 1 row) (\<lambda>(c, v) sh''. cell sh'' r c v) sh') sh
       = (sh', Some x)"
proof (induction rows arbitrary: r0 sh)
  case Nil
  then show ?case by simp
next
  case (Cons row rows)
  show ?case
  proof (cases "list_all storable row")
    case False
    from write_row_fails[OF this, of 1 r0 sh] show ?thesis by (auto simp del: One_nat_def)
  next
    case True
    from write_row_ok_any[OF True, of 1 r0 sh]
    obtain sh1 where s1: "for_each (enumerate 1 row) (\<lambda>(c, v) sh''. cell sh'' r0 c v) sh = (sh1, None)" ..
    from Cons.prems True have "\<not> list_all (list_all storable) rows" by simp
    from Cons.IH[OF this, of "Suc r0" sh1] show ?thesis by (simp add: s1 del: One_nat_def)
  qed
qed

lemma write_rows_cells:
  assumes "\<forall>r \<ge> r0. \<forall>c. cells sh (r, c) = None" and "list_all (list_all storable) rows"
  shows "for_each (enumerate r0 rows)
           (\<lambda>(r, row) sh'. for_each (enumerate 1 row) (\<lambda>(c, v) sh''. cell sh'' r c v) sh') sh =
         (sh\<lparr>cells := (\<lambda>(r', c'). if r0 \<le> r' \<and> r' < r0 + length rows
                                      \<and> 1 \<le> c' \<and> c' \<le> length (rows ! (r' - r0))
                          then Some (stored (rows ! (r' - r0) ! (c' - 1))) else cells sh (r', c'))\<rparr>,
          None)"
  using assms
proof (induction rows arbitrary: r0 sh)
  case Nil
  show ?case by (cases sh) (auto simp: fun_eq_iff)
next
  case (Cons row rows)
  let ?sh1 = "sh\<lparr>cells := (\<lambda>(r', c'). if r' = r0 \<and> 1 \<le> c' \<and> c' < 1 + length row
                          then Some (stored (row ! (c' - 1))) else cells sh (r', c'))\<rparr>"
  have s1: "for_each (enumerate 1 row) (\<lambda>(c, v) sh''. cell sh'' r0 c v) sh = (?sh1, None)"
    using Cons.prems by (intro write_row_cells) simp_all
  have fresh: "\<forall>r \<ge> Suc r0. \<forall>c. cells ?sh1 (r, c) = None" using Cons.prems by simp
  have ok: "list_all (list_all storable) rows" using Cons.prems by simp
  have "for_each (enumerate r0 (row # rows))
           (\<lambda>(r, row) sh'. for_each (enumerate 1 row) (\<lambda>(c, v) sh''. cell sh'' r c v) sh') sh
        = for_each (enumerate (Suc r0) rows)
           (\<lambda>(r, row) sh'. for_each (enumerate 1 row) (\<lambda>(c, v) sh''. cell sh'' r c v) sh') ?sh1"
    by (simp add: s1 del: One_nat_def)
  also have "\<dots> = (?sh1\<lparr>cells := (\<lambda>(r', c'). if Suc r0 \<le> r' \<and> r' < Suc r0 + length rows
                                      \<and> 1 \<le> c' \<and> c' \<le> length (rows ! (r' - Suc r0))
                          then Some (stored (rows ! (r' - Suc r0) ! (c' - 1)))
                          else cells ?sh1 (r', c'))\<rparr>, None)"
    by (rule Cons.IH[OF fresh ok])
  also have "\<dots> = (sh\<lparr>cells := (\<lambda>(r', c'). if r0 \<le> r' \<and> r' < r0 + length (row # rows)
                                      \<and> 1 \<le> c' \<and> c' \<le> length ((row # rows) ! (r' - r0))
                          then Some (stored ((row # rows) ! (r' - r0) ! (c' - 1)))
                          else cells sh (r', c'))\<rparr>, None)"
    by (auto simp: fun_eq_iff nth_Cons' Suc_diff_Suc intro!: arg_cong[where f="\<lambda>f. sh\<lparr>cells := f\<rparr>"])
  finally show ?case .
qed

lemma write_table_to_sheet_fresh:
  assumes "storable_table tbl"
  shows "write_table_to_sheet \<lparr>title = t, cells = Map.empty\<rparr> tbl =
     (\<lparr>title = t,
       cells = (\<lambda>(r, c). if 1 \<le> r \<and> r \<le> length (stored_table tbl) \<and> 1 \<le> c
                             \<and> c \<le> length (stored_table tbl ! (r - 1))
                         then Some (stored_table tbl ! (r - 1) ! (c - 1)) else None)\<rparr>, None)"
proof -
  have "write_table_to_sheet \<lparr>title = t, cells = Map.empty\<rparr> tbl =
        (\<lparr>title = t, cells = Map.empty\<rparr>\<lparr>cells := (\<lambda>(r', c'). if 1 \<le> r' \<and> r' < 1 + length tbl
                                      \<and> 1 \<le> c' \<and> c' \<le> length (tbl ! (r' - 1))
                          then Some (stored (tbl ! (r' - 1) ! (c' - 1)))
                          else cells \<lparr>title = t, cells = Map.empty\<rparr> (r', c'))\<rparr>, None)"
    unfolding write_table_to_sheet_def using assms
    by (intro write_rows_cells) (simp_all add: storable_table_def)
  also have "\<dots> = (\<lparr>title = t,
       cells = (\<lambda>(r, c). if 1 \<le> r \<and> r \<le> length (stored_table tbl) \<and> 1 \<le> c
                             \<and> c \<le> length (stored_table tbl ! (r - 1))
                         then Some (stored_table tbl ! (r - 1) ! (c - 1)) else None)\<rparr>, None)"
    by (auto simp: fun_eq_iff stored_table_def)
  finally show ?thesis .
qed

lemma write_table_to_sheet_fails:
  "\<not> storable_table tbl \<Longrightarrow> \<exists>sh' x. write_table_to_sheet sh tbl = (sh', Some x)"
  unfolding write_table_to_sheet_def storable_table_def by (rule write_rows_fails)

lemma add_table_sheet_ok:
  "storable_table tbl \<Longrightarrow>
     add_table_sheet i k tbl wb = (wb @ [table_sheet (i + 1) k (stored_table tbl)], None)"
  by (simp add: add_table_sheet_def create_sheet_def Let_def write_table_to_sheet_fresh
        table_sheet_def del: One_nat_def)

lemma add_table_sheet_fails:
  "\<not> storable_table tbl \<Longrightarrow> \<exists>wb' x. add_table_sheet i k tbl wb = (wb', Some x)"
proof -
  assume "\<not> storable_table tbl"
  from write_table_to_sheet_fails[OF this]
  obtain sh' x where "write_table_to_sheet
       (create_sheet wb (''Table_Page_'' @ str_int (i + 1) @ ''_'' @ str_nat k)
          ! (length (create_sheet wb (''Table_Page_'' @ str_int (i + 1) @ ''_'' @ str_nat k)) - 1))
       tbl = (sh', Some x)" by blast
  then show ?thesis by (simp add: add_table_sheet_def Let_def)
qed

lemma add_tables_ok:
  "list_all storable_table ts \<Longrightarrow>
     for_each (enumerate k0 ts) (\<lambda>(k, tbl) wb. add_table_sheet i k tbl wb) wb =
       (wb @ map (\<lambda>(k, tbl). table_sheet (i + 1) k (stored_table tbl)) (enumerate k0 ts), None)"
  by (induction ts arbitrary: k0 wb) (simp_all add: add_table_sheet_ok)

lemma add_tables_fails:
  "\<not> list_all storable_table ts \<Longrightarrow>
     \<exists>wb' x. for_each (enumerate k0 ts) (\<lambda>(k, tbl) wb. add_table_sheet i k tbl wb) wb = (wb', Some x)"
proof (induction ts arbitrary: k0 wb)
  case Nil
  then show ?case by simp
next
  case (Cons tbl ts)
  show ?case
  proof (cases "storable_table tbl")
    case True
    with Cons.prems have "\<not> list_all storable_table ts" by simp
    from Cons.IH[OF this, of "Suc k0" "wb @ [table_sheet (i + 1) k0 (stored_table tbl)]"]
    show ?thesis by (simp add: add_table_sheet_ok[OF True])
  next
    case False
    from add_table_sheet_fails[OF this, of i k0 wb] show ?thesis by auto
  qed
qed

lemma write_text_fails:
  "\<not> list_all (\<lambda>s. storable (Some s)) xs \<Longrightarrow>
     \<exists>sh' x. for_each (enumerate r0 xs) (\<lambda>(i, line) sh'. cell sh' i 1 (Some line)) sh = (sh', Some x)"
proof (induction xs arbitrary: r0 sh)
  case Nil
  then show ?case by simp
next
  case (Cons v vs)
  show ?case
  proof (cases "storable (Some v)")
    case True
    from cell_storable_any[OF True, of sh r0 1]
    obtain sh1 where s1: "cell sh r0 1 (Some v) = (sh1, None)" ..
    from Cons.prems True have "\<not> list_all (\<lambda>s. storable (Some s)) vs" by simp
    from Cons.IH[OF this, of "Suc r0" sh1] show ?thesis by (simp add: s1 del: One_nat_def)
  next
    case False
    from cell_unstorable[OF this, of sh r0 1] show ?thesis by (auto simp del: One_nat_def)
  qed
qed

lemma write_text_cells:
  assumes "\<forall>r \<ge> r0. cells sh (r, 1) = None" and "list_all (\<lambda>s. storable (Some s)) xs"
  shows "for_each (enumerate r0 xs) (\<lambda>(i, line) sh'. cell sh' i 1 (Some line)) sh =
     (sh\<lparr>cells := (\<lambda>(r, c). if c = 1 \<and> r0 \<le> r \<and> r < r0 + length xs
                      then Some (Some (take 32767 (xs ! (r - r0)))) else cells sh (r, c))\<rparr>, None)"
  using assms
proof (induction xs arbitrary: r0 sh)
  case Nil
  show ?case by (cases sh) (auto simp: fun_eq_iff)
next
  case (Cons x xs)
  let ?sh1 = "sh\<lparr>cells := (cells sh)((r0, 1) \<mapsto> Some (take 32767 x))\<rparr>"
  have s1: "cell sh r0 1 (Some x) = (?sh1, None)"
    using Cons.prems cell_storable[of sh r0 1 "Some x"] by (simp add: stored_def)
  have fresh: "\<forall>r \<ge> Suc r0. cells ?sh1 (r, 1) = None" using Cons.prems by simp
  have ok: "list_all (\<lambda>s. storable (Some s)) xs" using Cons.prems by simp
  have "for_each (enumerate r0 (x # xs)) (\<lambda>(i, line) sh'. cell sh' i 1 (Some line)) sh
        = for_each (enumerate (Suc r0) xs) (\<lambda>(i, line) sh'. cell sh' i 1 (Some line)) ?sh1"
    by (simp add: s1 del: One_nat_def)
  also have "\<dots> = (?sh1\<lparr>cells := (\<lambda>(r, c). if c = 1 \<and> Suc r0 \<le> r \<and> r < Suc r0 + length xs
                      then Some (Some (take 32767 (xs ! (r - Suc r0)))) else cells ?sh1 (r, c))\<rparr>, None)"
    by (rule Cons.IH[OF fresh ok])
  also have "\<dots> = (sh\<lparr>cells := (\<lambda>(r, c). if c = 1 \<and> r0 \<le> r \<and> r < r0 + length (x # xs)
                      then Some (Some (take 32767 ((x # xs) ! (r - r0)))) else cells sh (r, c))\<rparr>, None)"
    by (auto simp: fun_eq_iff nth_Cons' Suc_diff_Suc intro!: arg_cong[where f="\<lambda>f. sh\<lparr>cells := f\<rparr>"])
  finally show ?case .
qed

lemma write_text_to_sheet_fresh:
  assumes "list_all (\<lambda>s. storable (Some s)) entries"
  shows "write_text_to_sheet \<lparr>title = ''Text_Body'', cells = Map.empty\<rparr> entries
           = (text_sheet (map (take 32767) entries), None)"
proof -
  have "write_text_to_sheet \<lparr>title = ''Text_Body'', cells = Map.empty\<rparr> entries =
     (\<lparr>title = ''Text_Body'', cells = Map.empty\<rparr>\<lparr>cells := (\<lambda>(r, c). if c = 1 \<and> 1 \<le> r \<and> r < 1 + length entries
                      then Some (Some (take 32767 (entries ! (r - 1))))
                      else cells \<lparr>title = ''Text_Body'', cells = Map.empty\<rparr> (r, c))\<rparr>, None)"
    unfolding write_text_to_sheet_def using assms by (intro write_text_cells) simp_all
  also have "\<dots> = (text_sheet (map (take 32767) entries), None)"
    by (auto simp: text_sheet_def fun_eq_iff)
  finally show ?thesis .
qed

lemma write_text_to_sheet_fails:
  "\<not> list_all (\<lambda>s. storable (Some s)) entries \<Longrightarrow>
     \<exists>sh' x. write_text_to_sheet sh entries = (sh', Some x)"
  unfolding write_text_to_sheet_def by (rule write_text_fails)

subsection \<open>What a successful iteration and a successful loop leave behind\<close>

lemma process_page_tables:
  assumes g: "pages_get pages i = Inr p"
    and w: "within_bbox p (0, hh, width p, height p - fh) = Inr v"
    and x: "extract_text v = Inr t" and y: "extract_tables v = Inr ts"
  shows "\<exists>st2. all_text st2 = all_text st @ page_text_block pages hh fh (i + 1)
           \<and> workbook st2 = workbook st
           \<and> process_page pages hh fh i st =
               (case for_each (enumerate 1 ts) (\<lambda>(k, tbl) wb. add_table_sheet i k tbl wb)
                       (workbook st2) of
                  (wb, r) \<Rightarrow> (st2\<lparr>workbook := wb\<rparr>, r))"
proof (cases "\<exists>s. t = Some s \<and> s \<noteq> []")
  case True
  then obtain s where t: "t = Some s" and s: "s \<noteq> []" by blast
  show ?thesis
    by (rule exI[of _ "st\<lparr>trace := trace st @ [Crop i (0, hh, width p, height p - fh)],
                          all_text := all_text st @ [''Page '' @ str_int (i + 1) @ '':'' @ [CHR 0x0A] @ s]\<rparr>"])
       (simp add: process_page_def Let_def g w x y t s page_text_block_def page_view_def
          del: One_nat_def)
next
  case False
  then have e: "page_text_block pages hh fh (i + 1) = []"
    by (cases t) (auto simp: page_text_block_def page_view_def g w x)
  show ?thesis
    by (rule exI[of _ "st\<lparr>trace := trace st @ [Crop i (0, hh, width p, height p - fh)]\<rparr>"])
       (use False in \<open>cases t; simp add: process_page_def Let_def g w x y e del: One_nat_def\<close>)
qed

lemma process_page_None:
  assumes "process_page pages hh fh i st = (st', None)"
  shows "all_text st' = all_text st @ page_text_block pages hh fh (i + 1)"
    and "workbook st' = workbook st @ page_table_sheets pages hh fh (i + 1)"
    and "list_all storable_table (page_tables pages hh fh (i + 1))"
proof -
  from assms obtain p v t ts where
    g: "pages_get pages i = Inr p"
    and w: "within_bbox p (0, hh, width p, height p - fh) = Inr v"
    and x: "extract_text v = Inr t" and y: "extract_tables v = Inr ts"
    by (auto simp: process_page_def Let_def split: sum.splits)
  from process_page_tables[OF g w x y, of st] obtain st2 where
    a: "all_text st2 = all_text st @ page_text_block pages hh fh (i + 1)"
    and b: "workbook st2 = workbook st"
    and pp: "process_page pages hh fh i st =
               (case for_each (enumerate 1 ts) (\<lambda>(k, tbl) wb. add_table_sheet i k tbl wb)
                       (workbook st2) of
                  (wb, r) \<Rightarrow> (st2\<lparr>workbook := wb\<rparr>, r))" by blast
  have pt: "page_tables pages hh fh (i + 1) = ts"
    by (simp add: page_tables_def page_view_def g w y)
  have ok: "list_all storable_table ts"
  proof (rule ccontr)
    assume "\<not> list_all storable_table ts"
    from add_tables_fails[OF this, of 1 i "workbook st2"] obtain wb' e where
      "for_each (enumerate 1 ts) (\<lambda>(k, tbl) wb. add_table_sheet i k tbl wb) (workbook st2)
         = (wb', Some e)" by blast
    with pp assms show False by simp
  qed
  from pp assms have st': "st' = st2\<lparr>workbook := workbook st2 @
        map (\<lambda>(k, tbl). table_sheet (i + 1) k (stored_table tbl)) (enumerate 1 ts)\<rparr>"
    by (simp add: add_tables_ok[OF ok])
  show "list_all storable_table (page_tables pages hh fh (i + 1))" by (simp add: pt ok)
  show "all_text st' = all_text st @ page_text_block pages hh fh (i + 1)" by (simp add: st' a)
  show "workbook st' = workbook st @ page_table_sheets pages hh fh (i + 1)"
    by (simp add: st' b page_table_sheets_def pt del: One_nat_def)
qed

lemma page_loop_None:
  assumes "page_loop pages hh fh idxs st = (st', None)"
  shows "all_text st' = all_text st @ concat (map (\<lambda>i. page_text_block pages hh fh (i + 1)) idxs)
       \<and> workbook st' = workbook st @ concat (map (\<lambda>i. page_table_sheets pages hh fh (i + 1)) idxs)"
  using assms
proof (induction idxs arbitrary: st)
  case Nil
  then show ?case by simp
next
  case (Cons i idxs)
  obtain st1 r where pp: "process_page pages hh fh i st = (st1, r)"
    by (cases "process_page pages hh fh i st")
  with Cons.prems have r: "r = None" and loop: "page_loop pages hh fh idxs st1 = (st', None)"
    by (auto split: option.splits)
  from process_page_None(1,2)[OF pp[unfolded r]] Cons.IH[OF loop] show ?case by simp
qed

subsection \<open>The events of the loop\<close>

lemma process_page_trace:
  "trace (fst (process_page pages hh fh i st)) =
     trace st @ (case pages_get pages i of Inl _ \<Rightarrow> [] | Inr p \<Rightarrow> [Crop i (0, hh, width p, height p - fh)])"
  by (simp add: process_page_def Let_def split: sum.splits option.splits prod.splits)

lemma process_page_mem:
  assumes "process_page pages hh fh i st = (st1, r)" "ev \<in> set (trace st1)"
  shows "ev \<in> set (trace st) \<or>
         (\<exists>p. pages_get pages i = Inr p \<and> ev = Crop i (0, hh, width p, height p - fh))"
proof -
  have "trace st1 = trace st @ (case pages_get pages i of Inl _ \<Rightarrow> []
                                     | Inr p \<Rightarrow> [Crop i (0, hh, width p, height p - fh)])"
    using process_page_trace[of pages hh fh i st] assms(1) by simp
  with assms(2) show ?thesis
    by (cases "pages_get pages i") auto
qed

lemma page_loop_mem:
  "page_loop pages hh fh idxs st = (st', r) \<Longrightarrow> ev \<in> set (trace st') \<Longrightarrow>
     ev \<in> set (trace st) \<or>
     (\<exists>i p. i \<in> set idxs \<and> pages_get pages i = Inr p \<and> ev = Crop i (0, hh, width p, height p - fh))"
proof (induction idxs arbitrary: st)
  case Nil
  then show ?case by simp
next
  case (Cons i idxs)
  obtain st1 r1 where pp: "process_page pages hh fh i st = (st1, r1)"
    by (cases "process_page pages hh fh i st")
  have step: "ev \<in> set (trace st1) \<Longrightarrow> ?case"
    using process_page_mem[OF pp, of ev] by auto
  show ?case
  proof (cases r1)
    case None
    with Cons.prems pp have "page_loop pages hh fh idxs st1 = (st', r)" by simp
    from Cons.IH[OF this Cons.prems(2)] step show ?thesis by auto
  next
    case (Some e)
    with Cons.prems pp have "st' = st1" by simp
    with Cons.prems(2) show ?thesis using step by simp
  qed
qed

lemma map_upto_shift: "map (\<lambda>i. f (i + 1)) [s - 1..e - 1] = map f [s..e]"
proof (induction s e rule: upto.induct)
  case (1 i j)
  show ?case
  proof (cases "i \<le> j")
    case True
    then have a: "[i..j] = i # [i + 1..j]" and b: "[i - 1..j - 1] = (i - 1) # [i + 1 - 1..j - 1]"
      by (simp_all add: upto_rec1)
    show ?thesis using 1[OF True] by (simp only: a b list.map) simp
  next
    case False
    then show ?thesis by simp
  qed
qed

subsection \<open>The body of the routine on a request that passes validation\<close>

lemma try_valid:
  assumes "path_exists env inp" "endswith (lower inp) ''.pdf''" "endswith (lower out') ''.xlsx''"
    "pdfplumber_open env inp = Inr pages" "Workbook_raises env = None"
  shows "pdf_to_excel_try env inp (Some out') sp ep (Some h) (Some f) =
     (case page_loop_try pages (mm_to_points h) (mm_to_points f) sp ep (initial_state inp) of
        (st', Some e) \<Rightarrow> (trace st', Some e)
      | (st', None) \<Rightarrow>
          (case write_text_to_sheet (workbook st' ! 0) (all_text st') of
             (sh, Some e) \<Rightarrow> (trace st', Some e)
           | (sh, None) \<Rightarrow>
               (let wb = (workbook st')[0 := sh]
                in (case workbook_save env out' wb of
                      Some e \<Rightarrow> (trace st' @ [Save out' wb],
                                 Some (Exn IOError (''Failed to save the Excel file: '' @ msg e)))
                    | None \<Rightarrow> (trace st' @ [Save out' wb,
                                   Print (''PDF data successfully converted to '' @ out')], None)))))"
  using assms by (simp add: pdf_to_excel_try_def mm_to_points_call_def)


text \<open>The definitions a run on a concrete request unfolds.\<close>

lemmas run_defs = pdf_to_excel_def pdf_to_excel_try_def page_loop_try_def page_range_def
  process_page_def pages_get_def mm_to_points_call_def mm_to_points_def initial_state_def
  example_env_def example_page_def failing_page_def lower_def lower_char_def endswith_def
  str_int_def str_nat.simps digit_char_def upto.simps Let_def
  write_text_to_sheet_fresh add_table_sheet_ok storable_def storable_table_def
  illegal_characters_def

lemma try_trace_prefix:
  "ev \<in> set (fst (pdf_to_excel env inp out sp ep hh fh)) \<Longrightarrow>
     ev \<in> set (fst (pdf_to_excel_try env inp out sp ep hh fh)) \<or> (\<exists>l. ev = Print l)"
  by (auto simp: pdf_to_excel_def split: prod.splits option.splits)

subsection \<open>The crop region\<close>



subsection \<open>The workbook that is saved\<close>

lemma process_page_None_view:
  assumes "process_page pages hh fh i st = (st', None)"
  shows "\<exists>v. page_view pages hh fh (i + 1) = Inr v
             \<and> (\<exists>t. extract_text v = Inr t)
             \<and> extract_tables v = Inr (page_tables pages hh fh (i + 1))"
  using assms
  by (auto simp: process_page_def Let_def page_view_def page_tables_def
      split: sum.splits option.splits if_splits)

lemma page_loop_None_view:
  assumes "page_loop pages hh fh idxs st = (st', None)" "i \<in> set idxs"
  shows "\<exists>v. page_view pages hh fh (i + 1) = Inr v
             \<and> (\<exists>t. extract_text v = Inr t)
             \<and> extract_tables v = Inr (page_tables pages hh fh (i + 1))
             \<and> list_all storable_table (page_tables pages hh fh (i + 1))"
  using assms
proof (induction idxs arbitrary: st)
  case Nil
  then show ?case by simp
next
  case (Cons j idxs)
  obtain st1 r where pp: "process_page pages hh fh j st = (st1, r)"
    by (cases "process_page pages hh fh j st")
  with Cons.prems have r: "r = None" and loop: "page_loop pages hh fh idxs st1 = (st', None)"
    by (auto split: option.splits)
  show ?case
  proof (cases "i = j")
    case True
    with process_page_None_view[OF pp[unfolded r]] process_page_None(3)[OF pp[unfolded r]]
    show ?thesis by simp
  next
    case False
    with Cons.prems(2) have "i \<in> set idxs" by simp
    from Cons.IH[OF loop this] show ?thesis .
  qed
qed

lemma save_in_try:
  assumes "Save path wb \<in> set (fst (pdf_to_excel_try env inp (Some out') (Some s) (Some e) (Some h) (Some f)))"
  shows "\<exists>pages st' sh. pdfplumber_open env inp = Inr pages
           \<and> page_loop pages (mm_to_points h) (mm_to_points f) [s - 1..e - 1] (initial_state inp) = (st', None)
           \<and> path = out'
           \<and> write_text_to_sheet (workbook st' ! 0) (all_text st') = (sh, None)
           \<and> wb = (workbook st')[0 := sh]"
  using assms
  by (auto simp: pdf_to_excel_try_def mm_to_points_call_def page_loop_try_def
        page_range_def Let_def
      split: if_splits option.splits sum.splits prod.splits
      dest: page_loop_mem simp: initial_state_def)

lemma saved_workbook:
  assumes "Save path wb \<in> set (fst (pdf_to_excel env inp (Some out') (Some s) (Some e) (Some h) (Some f)))"
    and "pdfplumber_open env inp = Inr pages"
  shows "path = out'"
    and "wb = text_sheet (map (take 32767)
                 (concat (map (page_text_block pages (mm_to_points h) (mm_to_points f)) [s..e])))
              # concat (map (page_table_sheets pages (mm_to_points h) (mm_to_points f)) [s..e])"
    and "\<forall>n \<in> set [s..e]. \<exists>v. page_view pages (mm_to_points h) (mm_to_points f) n = Inr v
             \<and> (\<exists>t. extract_text v = Inr t)
             \<and> extract_tables v = Inr (page_tables pages (mm_to_points h) (mm_to_points f) n)
             \<and> list_all storable_table (page_tables pages (mm_to_points h) (mm_to_points f) n)"
    and "list_all (\<lambda>s. storable (Some s))
           (concat (map (page_text_block pages (mm_to_points h) (mm_to_points f)) [s..e]))"
proof -
  let ?entries = "concat (map (page_text_block pages (mm_to_points h) (mm_to_points f)) [s..e])"
  from try_trace_prefix[OF assms(1)]
  have "Save path wb \<in> set (fst (pdf_to_excel_try env inp (Some out') (Some s) (Some e) (Some h) (Some f)))"
    by auto
  from save_in_try[OF this] assms(2) obtain st' sh where
    loop: "page_loop pages (mm_to_points h) (mm_to_points f) [s - 1..e - 1] (initial_state inp) = (st', None)"
    and p: "path = out'"
    and wt: "write_text_to_sheet (workbook st' ! 0) (all_text st') = (sh, None)"
    and wb: "wb = (workbook st')[0 := sh]"
    by auto
  show "path = out'" by (rule p)
  from page_loop_None[OF loop]
  have at: "all_text st' = ?entries"
    and w: "workbook st' = \<lparr>title = ''Text_Body'', cells = Map.empty\<rparr>
               # concat (map (page_table_sheets pages (mm_to_points h) (mm_to_points f)) [s..e])"
    by (simp_all add: initial_state_def map_upto_shift)
  from wt have wt': "write_text_to_sheet \<lparr>title = ''Text_Body'', cells = Map.empty\<rparr> ?entries = (sh, None)"
    by (simp add: w at)
  show ok: "list_all (\<lambda>s. storable (Some s)) ?entries"
  proof (rule ccontr)
    assume "\<not> list_all (\<lambda>s. storable (Some s)) ?entries"
    from write_text_to_sheet_fails[OF this, of "\<lparr>title = ''Text_Body'', cells = Map.empty\<rparr>"] wt'
    show False by auto
  qed
  from wt' write_text_to_sheet_fresh[OF ok] have sh: "sh = text_sheet (map (take 32767) ?entries)"
    by simp
  show "wb = text_sheet (map (take 32767) ?entries)
              # concat (map (page_table_sheets pages (mm_to_points h) (mm_to_points f)) [s..e])"
    by (simp add: wb w sh)
  show "\<forall>n \<in> set [s..e]. \<exists>v. page_view pages (mm_to_points h) (mm_to_points f) n = Inr v
             \<and> (\<exists>t. extract_text v = Inr t)
             \<and> extract_tables v = Inr (page_tables pages (mm_to_points h) (mm_to_points f) n)
             \<and> list_all storable_table (page_tables pages (mm_to_points h) (mm_to_points f) n)"
  proof
    fix n assume "n \<in> set [s..e]"
    then have "n - 1 \<in> set [s - 1..e - 1]" by simp
    from page_loop_None_view[OF loop this]
    show "\<exists>v. page_view pages (mm_to_points h) (mm_to_points f) n = Inr v
             \<and> (\<exists>t. extract_text v = Inr t)
             \<and> extract_tables v = Inr (page_tables pages (mm_to_points h) (mm_to_points f) n)
             \<and> list_all storable_table (page_tables pages (mm_to_points h) (mm_to_points f) n)"
      by simp
  qed
qed

lemma stored_short: "length s \<le> 32767 \<Longrightarrow> stored (Some s) = Some s"
  by (simp add: stored_def)

lemma stored_table_verbatim:
  assumes "\<forall>row \<in> set tbl. \<forall>s. Some s \<in> set row \<longrightarrow> length s \<le> 32767"
  shows "stored_table tbl = tbl"
proof -
  have "map stored row = row" if "row \<in> set tbl" for row
  proof (rule map_idI)
    fix v assume "v \<in> set row"
    with assms that show "stored v = v" by (cases v) (auto simp: stored_def)
  qed
  then have "map (map stored) tbl = tbl" by (rule map_idI)
  then show ?thesis by (simp add: stored_table_def)
qed

lemma storable_replicate: "c \<notin> set illegal_characters \<Longrightarrow> storable (Some (replicate n c))"
  by (auto simp: storable_def list_ex_iff dest: in_set_takeD)

lemma long_string_storable: "storable (Some long_string)"
  unfolding long_string_def by (rule storable_replicate) (simp add: illegal_characters_def)

lemma long_string_stored: "stored (Some long_string) = Some (replicate 32767 (CHR ''a''))"
  by (simp add: stored_def long_string_def)

lemma control_string_check:
  "check_string (s @ control_string) =
     Inl (Exn OtherException (take 32767 (s @ control_string) @ '' cannot be used in worksheets.''))" if "length s < 32766"
  using that by (simp add: check_string_def Let_def control_string_def illegal_characters_def list_ex_iff)

subsection \<open>Table sheets\<close>

text \<open>
  Claim C5 as stated does not hold of every table. A cell with a control character makes
  \<^verbatim>\<open>sheet.cell\<close> raise inside the page loop: the routine prints a runtime error and
  saves nothing. And a cell of 32768 characters is saved without its last character.
\<close>

theorem table_cells_not_verbatim_counterexample:
  "pdf_to_excel (example_env [example_page None [[[Some control_string]]]]) ''report.pdf''
      (Some ''out.xlsx'') (Some 1) (Some 1) (Some 0) (Some 0)
   = ([OpenPdf ''report.pdf'', Crop 0 (0, 0, 595, 842), ClosePdf,
       Print (''Runtime error: Error processing PDF pages: '' @ control_string
                @ '' cannot be used in worksheets.'')],
      Returned ())
   \<and> Save ''out.xlsx'' [text_sheet [], table_sheet 1 1 [[Some (replicate 32767 (CHR ''a''))]]]
       \<in> set (fst (pdf_to_excel (example_env [example_page None [[[Some long_string]]]]) ''report.pdf''
                     (Some ''out.xlsx'') (Some 1) (Some 1) (Some 0) (Some 0)))
   \<and> replicate 32767 (CHR ''a'') \<noteq> long_string"
proof (intro conjI)
  have c: "check_string control_string
     = Inl (Exn OtherException (control_string @ '' cannot be used in worksheets.''))"
    using control_string_check[of "[]"] by (simp add: control_string_def)
  show "pdf_to_excel (example_env [example_page None [[[Some control_string]]]]) ''report.pdf''
      (Some ''out.xlsx'') (Some 1) (Some 1) (Some 0) (Some 0)
   = ([OpenPdf ''report.pdf'', Crop 0 (0, 0, 595, 842), ClosePdf,
       Print (''Runtime error: Error processing PDF pages: '' @ control_string
                @ '' cannot be used in worksheets.'')],
      Returned ())"
    by (simp add: pdf_to_excel_def pdf_to_excel_try_def page_loop_try_def page_range_def
          process_page_def pages_get_def mm_to_points_call_def mm_to_points_def initial_state_def
          example_env_def example_page_def lower_def lower_char_def endswith_def Let_def
          add_table_sheet_def create_sheet_def write_table_to_sheet_def cell_def c)
  have t: "storable_table [[Some long_string]]"
    by (simp add: storable_table_def long_string_storable)
  have s: "stored_table [[Some long_string]] = [[Some (replicate 32767 (CHR ''a''))]]"
    by (simp add: stored_table_def long_string_stored)
  show "Save ''out.xlsx'' [text_sheet [], table_sheet 1 1 [[Some (replicate 32767 (CHR ''a''))]]]
       \<in> set (fst (pdf_to_excel (example_env [example_page None [[[Some long_string]]]]) ''report.pdf''
                     (Some ''out.xlsx'') (Some 1) (Some 1) (Some 0) (Some 0)))"
    by (simp add: pdf_to_excel_def pdf_to_excel_try_def page_loop_try_def page_range_def
          process_page_def pages_get_def mm_to_points_call_def mm_to_points_def initial_state_def
          example_env_def example_page_def lower_def lower_char_def endswith_def Let_def
          add_table_sheet_ok[OF t] s write_text_to_sheet_fresh)
  show "replicate 32767 (CHR ''a'') \<noteq> long_string"
    by (simp add: long_string_def)
qed

text \<open>
  Claim C5, amended. When the routine reaches \<^verbatim>\<open>workbook.save\<close> for the pages \<open>s\<close>
  to \<open>e\<close>, the workbook is the sheet \<open>Text_Body\<close> followed, page after page in ascending
  order and table after table in detection order, by one sheet per table; the sheet of the
  \<open>k\<close>-th table of page \<open>n\<close> is named \<open>Table_Page_n_k\<close> and holds the table's cells at
  (row, column) counted from 1, each string cut to its first 32767 characters, so verbatim
  when no cell is longer. No cell of these tables has a control character among the
  characters kept. The tables are those the collaborator returned for the cropped view of
  the page.
\<close>

theorem table_sheets_in_order:
  assumes "Save path wb \<in> set (fst (pdf_to_excel env inp (Some out') (Some s) (Some e) (Some h) (Some f)))"
    and "pdfplumber_open env inp = Inr pages"
  shows "(\<exists>first. title first = ''Text_Body'' \<and>
            wb = first # concat (map (\<lambda>n. map (\<lambda>(k, tbl). table_sheet n k (stored_table tbl))
                                     (enumerate 1 (page_tables pages (mm_to_points h) (mm_to_points f) n)))
                                   [s..e]))
       \<and> (\<forall>n \<in> set [s..e].
            (\<exists>v. page_view pages (mm_to_points h) (mm_to_points f) n = Inr v
                 \<and> extract_tables v = Inr (page_tables pages (mm_to_points h) (mm_to_points f) n))
            \<and> (\<forall>k \<in> {1..length (page_tables pages (mm_to_points h) (mm_to_points f) n)}.
                  storable_table (page_tables pages (mm_to_points h) (mm_to_points f) n ! (k - 1))
                  \<and> table_sheet n k
                      (stored_table (page_tables pages (mm_to_points h) (mm_to_points f) n ! (k - 1)))
                    \<in> set wb
                  \<and> ((\<forall>row \<in> set (page_tables pages (mm_to_points h) (mm_to_points f) n ! (k - 1)).
                         \<forall>x. Some x \<in> set row \<longrightarrow> length x \<le> 32767)
                       \<longrightarrow> stored_table (page_tables pages (mm_to_points h) (mm_to_points f) n ! (k - 1))
                             = page_tables pages (mm_to_points h) (mm_to_points f) n ! (k - 1))))"
proof -
  let ?T = "page_tables pages (mm_to_points h) (mm_to_points f)"
  note sw = saved_workbook[OF assms]
  have wb: "wb = text_sheet (map (take 32767)
                   (concat (map (page_text_block pages (mm_to_points h) (mm_to_points f)) [s..e])))
              # concat (map (\<lambda>n. map (\<lambda>(k, tbl). table_sheet n k (stored_table tbl))
                                     (enumerate 1 (?T n))) [s..e])"
    using sw(2) by (simp add: page_table_sheets_def[abs_def])
  have first: "\<exists>first. title first = ''Text_Body'' \<and>
            wb = first # concat (map (\<lambda>n. map (\<lambda>(k, tbl). table_sheet n k (stored_table tbl))
                                     (enumerate 1 (?T n))) [s..e])"
    by (rule exI[of _ "text_sheet (map (take 32767)
           (concat (map (page_text_block pages (mm_to_points h) (mm_to_points f)) [s..e])))"])
       (simp add: wb text_sheet_def)
  have each: "storable_table (?T n ! (k - 1))
              \<and> table_sheet n k (stored_table (?T n ! (k - 1))) \<in> set wb
              \<and> ((\<forall>row \<in> set (?T n ! (k - 1)). \<forall>x. Some x \<in> set row \<longrightarrow> length x \<le> 32767)
                   \<longrightarrow> stored_table (?T n ! (k - 1)) = ?T n ! (k - 1))"
    if n: "n \<in> set [s..e]" and k: "k \<in> {1..length (?T n)}" for n k
  proof (intro conjI impI)
    assume "\<forall>row \<in> set (?T n ! (k - 1)). \<forall>x. Some x \<in> set row \<longrightarrow> length x \<le> 32767"
    then show "stored_table (?T n ! (k - 1)) = ?T n ! (k - 1)" by (rule stored_table_verbatim)
  next
    from sw(3) n have "list_all storable_table (?T n)" by blast
    moreover from k have "k - 1 < length (?T n)" by auto
    ultimately show "storable_table (?T n ! (k - 1))" unfolding list_all_length by blast
    from k have "(k, ?T n ! (k - 1)) \<in> set (enumerate 1 (?T n))"
      by (auto simp: in_set_enumerate_eq)
    then have "table_sheet n k (stored_table (?T n ! (k - 1)))
        \<in> set (map (\<lambda>(k, tbl). table_sheet n k (stored_table tbl)) (enumerate 1 (?T n)))"
      by (force simp del: One_nat_def)
    with n have "table_sheet n k (stored_table (?T n ! (k - 1))) \<in>
        set (concat (map (\<lambda>n. map (\<lambda>(k, tbl). table_sheet n k (stored_table tbl))
                                    (enumerate 1 (?T n))) [s..e]))"
      unfolding set_concat
      by (intro UN_I[of "map (\<lambda>(k, tbl). table_sheet n k (stored_table tbl)) (enumerate 1 (?T n))"])
         simp_all
    then show "table_sheet n k (stored_table (?T n ! (k - 1))) \<in> set wb"
      by (subst wb) (simp only: list.set insert_iff, blast)
  qed
  from first sw(3) each show ?thesis by blast
qed

theorem table_sheets_in_order_witness:
  "Save ''out.xlsx'' [text_sheet [], table_sheet 1 1 two_by_two]
     \<in> set (fst (pdf_to_excel (example_env [example_page None [two_by_two]]) ''report.pdf''
                   (Some ''out.xlsx'') (Some 1) (Some 1) (Some 0) (Some 0)))
   \<and> pdfplumber_open (example_env [example_page None [two_by_two]]) ''report.pdf''
        = Inr [example_page None [two_by_two]]
   \<and> map title [text_sheet [], table_sheet 1 1 two_by_two] = [''Text_Body'', ''Table_Page_1_1'']
   \<and> stored_table two_by_two = two_by_two
   \<and> table_sheet 1 1
        (stored_table (page_tables [example_page None [two_by_two]] (mm_to_points 0) (mm_to_points 0) 1 ! 0))
        \<in> set [text_sheet [], table_sheet 1 1 two_by_two]"
proof -
  have st: "stored_table two_by_two = two_by_two"
    by (simp add: stored_table_def stored_def two_by_two_def)
  have ok: "storable_table two_by_two"
    by (simp add: storable_table_def storable_def two_by_two_def illegal_characters_def)
  have h: "Save ''out.xlsx'' [text_sheet [], table_sheet 1 1 two_by_two]
     \<in> set (fst (pdf_to_excel (example_env [example_page None [two_by_two]]) ''report.pdf''
                   (Some ''out.xlsx'') (Some 1) (Some 1) (Some 0) (Some 0)))"
    by (simp add: pdf_to_excel_def pdf_to_excel_try_def page_loop_try_def page_range_def
          process_page_def pages_get_def mm_to_points_call_def mm_to_points_def initial_state_def
          example_env_def example_page_def lower_def lower_char_def endswith_def Let_def
          add_table_sheet_ok[OF ok] st write_text_to_sheet_fresh)
  have o: "pdfplumber_open (example_env [example_page None [two_by_two]]) ''report.pdf''
        = Inr [example_page None [two_by_two]]"
    by (simp add: example_env_def)
  have t: "map title [text_sheet [], table_sheet 1 1 two_by_two] = [''Text_Body'', ''Table_Page_1_1'']"
    by (simp add: text_sheet_def table_sheet_def str_int_def str_nat.simps digit_char_def)
  have l: "length (page_tables [example_page None [two_by_two]] (mm_to_points 0) (mm_to_points 0) 1) = 1"
    by (simp add: page_tables_def page_view_def pages_get_def example_page_def)
  from table_sheets_in_order[OF h o]
  have "\<forall>n \<in> set [1..1].
          \<forall>k \<in> {1..length (page_tables [example_page None [two_by_two]] (mm_to_points 0) (mm_to_points 0) n)}.
            table_sheet n k
              (stored_table (page_tables [example_page None [two_by_two]] (mm_to_points 0) (mm_to_points 0) n ! (k - 1)))
              \<in> set [text_sheet [], table_sheet 1 1 two_by_two]"
    by blast
  then have "\<forall>k \<in> {1..length (page_tables [example_page None [two_by_two]] (mm_to_points 0) (mm_to_points 0) 1)}.
            table_sheet 1 k
              (stored_table (page_tables [example_page None [two_by_two]] (mm_to_points 0) (mm_to_points 0) 1 ! (k - 1)))
              \<in> set [text_sheet [], table_sheet 1 1 two_by_two]"
    by simp
  then have "table_sheet 1 1
       (stored_table (page_tables [example_page None [two_by_two]] (mm_to_points 0) (mm_to_points 0) 1 ! (1 - 1)))
              \<in> set [text_sheet [], table_sheet 1 1 two_by_two]"
    by (rule bspec) (simp add: l)
  then have "table_sheet 1 1
       (stored_table (page_tables [example_page None [two_by_two]] (mm_to_points 0) (mm_to_points 0) 1 ! 0))
              \<in> set [text_sheet [], table_sheet 1 1 two_by_two]"
    by simp
  with h o t st show ?thesis by blast
qed

subsection \<open>The text sheet\<close>

lemma page_text_block_of_view:
  "page_view pages hp fp n = Inr v \<Longrightarrow> extract_text v = Inr t \<Longrightarrow>
     page_text_block pages hp fp n =
       (case t of None \<Rightarrow> []
        | Some x \<Rightarrow> if x = [] then [] else [''Page '' @ str_int n @ '':'' @ [CHR 0x0A] @ x])"
  by (simp add: page_text_block_def split: option.splits)

text \<open>
  Claim C6 as stated does not hold of every text. When a collected entry has a control
  character, \<^verbatim>\<open>write_text_to_sheet\<close> raises at line 159, after the loop has completed:
  the exception is of none of the handled classes and leaves the routine, and nothing is
  saved. And an entry longer than 32767 characters is saved cut.
\<close>

theorem text_body_not_written_counterexample:
  "pdf_to_excel (example_env [example_page (Some control_string) []]) ''report.pdf''
      (Some ''out.xlsx'') (Some 1) (Some 1) (Some 0) (Some 0)
   = ([OpenPdf ''report.pdf'', Crop 0 (0, 0, 595, 842), ClosePdf],
      Raised (Exn OtherException
        (''Page 1:'' @ [CHR 0x0A] @ control_string @ '' cannot be used in worksheets.'')))
   \<and> Save ''out.xlsx'' [text_sheet [''Page 1:'' @ [CHR 0x0A] @ replicate 32759 (CHR ''a'')]]
       \<in> set (fst (pdf_to_excel (example_env [example_page (Some long_string) []]) ''report.pdf''
                     (Some ''out.xlsx'') (Some 1) (Some 1) (Some 0) (Some 0)))
   \<and> ''Page 1:'' @ [CHR 0x0A] @ replicate 32759 (CHR ''a'') \<noteq> ''Page 1:'' @ [CHR 0x0A] @ long_string"
proof (intro conjI)
  have c: "check_string (''Page 1:'' @ [CHR 0x0A] @ control_string)
     = Inl (Exn OtherException
         (''Page 1:'' @ [CHR 0x0A] @ control_string @ '' cannot be used in worksheets.''))"
    using control_string_check[of "''Page 1:'' @ [CHR 0x0A]"] by (simp add: control_string_def)
  have n: "control_string \<noteq> []" by (simp add: control_string_def)
  show "pdf_to_excel (example_env [example_page (Some control_string) []]) ''report.pdf''
      (Some ''out.xlsx'') (Some 1) (Some 1) (Some 0) (Some 0)
   = ([OpenPdf ''report.pdf'', Crop 0 (0, 0, 595, 842), ClosePdf],
      Raised (Exn OtherException
        (''Page 1:'' @ [CHR 0x0A] @ control_string @ '' cannot be used in worksheets.'')))"
    using c
    by (simp add: pdf_to_excel_def pdf_to_excel_try_def page_loop_try_def page_range_def
          process_page_def pages_get_def mm_to_points_call_def mm_to_points_def initial_state_def
          example_env_def example_page_def lower_def lower_char_def endswith_def Let_def
          str_int_def str_nat.simps digit_char_def n
          write_text_to_sheet_def cell_def)
  have k: "take 32767 (''Page 1:'' @ [CHR 0x0A] @ long_string)
             = ''Page 1:'' @ [CHR 0x0A] @ replicate 32759 (CHR ''a'')"
    by (simp add: long_string_def)
  have "storable (Some (''Page 1:'' @ [CHR 0x0A] @ long_string))"
    unfolding storable_def option.case k by (auto simp: list_ex_iff illegal_characters_def)
  then have ok: "list_all (\<lambda>s. storable (Some s)) [''Page 1:'' @ [CHR 0x0A] @ long_string]"
    by simp
  have l: "long_string \<noteq> []" by (simp add: long_string_def)
  show "Save ''out.xlsx'' [text_sheet [''Page 1:'' @ [CHR 0x0A] @ replicate 32759 (CHR ''a'')]]
       \<in> set (fst (pdf_to_excel (example_env [example_page (Some long_string) []]) ''report.pdf''
                     (Some ''out.xlsx'') (Some 1) (Some 1) (Some 0) (Some 0)))"
    using write_text_to_sheet_fresh[OF ok] k
    by (simp add: pdf_to_excel_def pdf_to_excel_try_def page_loop_try_def page_range_def
          process_page_def pages_get_def mm_to_points_call_def mm_to_points_def initial_state_def
          example_env_def example_page_def lower_def lower_char_def endswith_def Let_def
          str_int_def str_nat.simps digit_char_def l)
  show "''Page 1:'' @ [CHR 0x0A] @ replicate 32759 (CHR ''a'') \<noteq> ''Page 1:'' @ [CHR 0x0A] @ long_string"
    by (simp add: long_string_def)
qed

text \<open>
  Claim C6, amended. When the routine reaches \<^verbatim>\<open>workbook.save\<close> for the pages \<open>s\<close>
  to \<open>e\<close>, the first sheet is \<open>Text_Body\<close> with the first 32767 characters of entry \<open>j\<close>
  of the collected text at row \<open>j\<close>, column 1, and nothing else; no entry has a control
  character among the characters kept; and the collected text is the concatenation, in
  ascending page order, of the blocks of the pages, where page \<open>n\<close> contributes
  \<open>"Page n:\n" + text\<close> if its extracted text is a non-empty string and nothing
  otherwise.
\<close>

theorem text_body_rows:
  assumes "Save path wb \<in> set (fst (pdf_to_excel env inp (Some out') (Some s) (Some e) (Some h) (Some f)))"
    and "pdfplumber_open env inp = Inr pages"
  shows "wb \<noteq> []
       \<and> hd wb = text_sheet (map (take 32767)
                    (concat (map (page_text_block pages (mm_to_points h) (mm_to_points f)) [s..e])))
       \<and> list_all (\<lambda>x. storable (Some x))
           (concat (map (page_text_block pages (mm_to_points h) (mm_to_points f)) [s..e]))
       \<and> (\<forall>n \<in> set [s..e]. \<exists>v t.
             page_view pages (mm_to_points h) (mm_to_points f) n = Inr v \<and> extract_text v = Inr t
             \<and> page_text_block pages (mm_to_points h) (mm_to_points f) n =
                 (case t of None \<Rightarrow> []
                  | Some x \<Rightarrow> if x = [] then [] else [''Page '' @ str_int n @ '':'' @ [CHR 0x0A] @ x]))"
proof -
  note sw = saved_workbook[OF assms]
  have "\<exists>v t. page_view pages (mm_to_points h) (mm_to_points f) n = Inr v \<and> extract_text v = Inr t
             \<and> page_text_block pages (mm_to_points h) (mm_to_points f) n =
                 (case t of None \<Rightarrow> []
                  | Some x \<Rightarrow> if x = [] then [] else [''Page '' @ str_int n @ '':'' @ [CHR 0x0A] @ x])"
    if "n \<in> set [s..e]" for n
  proof -
    from sw(3) that obtain v t where
      "page_view pages (mm_to_points h) (mm_to_points f) n = Inr v" "extract_text v = Inr t"
      by blast
    with page_text_block_of_view[OF this] show ?thesis by blast
  qed
  with sw(2) sw(4) show ?thesis by simp
qed

theorem text_body_rows_witness:
  "Save ''out.xlsx'' [text_sheet [''Page 1:'' @ [CHR 0x0A] @ ''alpha'', ''Page 3:'' @ [CHR 0x0A] @ ''beta'']]
     \<in> set (fst (pdf_to_excel
          (example_env [example_page (Some ''alpha'') [], example_page (Some []) [],
                        example_page (Some ''beta'') []])
          ''report.pdf'' (Some ''out.xlsx'') (Some 1) (Some 3) (Some 0) (Some 0)))
   \<and> pdfplumber_open
          (example_env [example_page (Some ''alpha'') [], example_page (Some []) [],
                        example_page (Some ''beta'') []]) ''report.pdf''
        = Inr [example_page (Some ''alpha'') [], example_page (Some []) [], example_page (Some ''beta'') []]
   \<and> hd [text_sheet [''Page 1:'' @ [CHR 0x0A] @ ''alpha'', ''Page 3:'' @ [CHR 0x0A] @ ''beta'']]
       = text_sheet (map (take 32767) (concat (map (page_text_block
            [example_page (Some ''alpha'') [], example_page (Some []) [], example_page (Some ''beta'') []]
            (mm_to_points 0) (mm_to_points 0)) [1..3])))"
proof -
  have h: "Save ''out.xlsx'' [text_sheet [''Page 1:'' @ [CHR 0x0A] @ ''alpha'', ''Page 3:'' @ [CHR 0x0A] @ ''beta'']]
     \<in> set (fst (pdf_to_excel
          (example_env [example_page (Some ''alpha'') [], example_page (Some []) [],
                        example_page (Some ''beta'') []])
          ''report.pdf'' (Some ''out.xlsx'') (Some 1) (Some 3) (Some 0) (Some 0)))"
    by (simp add: run_defs)
  have o: "pdfplumber_open
          (example_env [example_page (Some ''alpha'') [], example_page (Some []) [],
                        example_page (Some ''beta'') []]) ''report.pdf''
        = Inr [example_page (Some ''alpha'') [], example_page (Some []) [], example_page (Some ''beta'') []]"
    by (simp add: example_env_def)
  from text_body_rows[OF h o] h o show ?thesis by simp
qed

subsection \<open>The handlers and the exit status\<close>

lemma failing_try_prints_nothing:
  assumes "pdf_to_excel_try env inp out sp ep hh fh = (tr, Some x)"
  shows "Print l \<notin> set tr"
  using assms
  by (auto simp: pdf_to_excel_try_def mm_to_points_call_def page_loop_try_def
        page_range_def Let_def initial_state_def
      split: if_splits option.splits sum.splits prod.splits dest: page_loop_mem)

text \<open>
  Claim C7. If the body of the routine fails with an exception of one of the five classes
  that have an \<^verbatim>\<open>except\<close> clause, the routine appends one line to standard output,
  the clause's prefix followed by the message, and returns; the failing body has printed
  nothing itself, so this is the only line. And whenever the routine returns, be it after
  a conversion or after such a line, \<^verbatim>\<open>main\<close> returns 0.
\<close>

theorem caught_kinds_print_once_exit_zero:
  "(\<forall>tr x. pdf_to_excel_try env (args_input_file a) (args_output_file a) (args_start_page a)
              (args_end_page a) (args_header_height_mm a) (args_footer_height_mm a) = (tr, Some x)
            \<and> cls x \<in> {FileNotFoundError, ValueError, IndexError, IOError, RuntimeError}
       \<longrightarrow> (\<exists>prefix. except_clause (cls x) = Some prefix
              \<and> pdf_to_excel env (args_input_file a) (args_output_file a) (args_start_page a)
                   (args_end_page a) (args_header_height_mm a) (args_footer_height_mm a)
                 = (tr @ [Print (prefix @ msg x)], Returned ())
              \<and> (\<forall>l. Print l \<notin> set tr)))
   \<and> (snd (pdf_to_excel env (args_input_file a) (args_output_file a) (args_start_page a)
              (args_end_page a) (args_header_height_mm a) (args_footer_height_mm a)) = Returned ()
       \<longrightarrow> snd (main env a) = Returned 0)"
proof (intro conjI allI impI)
  fix tr x
  assume h: "pdf_to_excel_try env (args_input_file a) (args_output_file a) (args_start_page a)
              (args_end_page a) (args_header_height_mm a) (args_footer_height_mm a) = (tr, Some x)
            \<and> cls x \<in> {FileNotFoundError, ValueError, IndexError, IOError, RuntimeError}"
  then obtain prefix where p: "except_clause (cls x) = Some prefix" by auto
  from h have np: "\<forall>l. Print l \<notin> set tr" using failing_try_prints_nothing by blast
  from h p have "pdf_to_excel env (args_input_file a) (args_output_file a) (args_start_page a)
                   (args_end_page a) (args_header_height_mm a) (args_footer_height_mm a)
                 = (tr @ [Print (prefix @ msg x)], Returned ())"
    by (simp add: pdf_to_excel_def)
  with p np show "\<exists>prefix. except_clause (cls x) = Some prefix
              \<and> pdf_to_excel env (args_input_file a) (args_output_file a) (args_start_page a)
                   (args_end_page a) (args_header_height_mm a) (args_footer_height_mm a)
                 = (tr @ [Print (prefix @ msg x)], Returned ())
              \<and> (\<forall>l. Print l \<notin> set tr)" by blast
next
  assume "snd (pdf_to_excel env (args_input_file a) (args_output_file a) (args_start_page a)
              (args_end_page a) (args_header_height_mm a) (args_footer_height_mm a)) = Returned ()"
  then show "snd (main env a) = Returned 0"
    by (cases "pdf_to_excel env (args_input_file a) (args_output_file a) (args_start_page a)
              (args_end_page a) (args_header_height_mm a) (args_footer_height_mm a)")
       (auto simp: main_def Let_def split: completion.splits)
qed

theorem caught_kinds_print_once_exit_zero_witness:
  "pdf_to_excel_try (example_env []) ''missing.pdf'' (Some ''out.xlsx'') (Some 1) (Some 1) (Some 0) (Some 0)
     = ([], Some (Exn FileNotFoundError
               (''The input file '' @ apostrophe @ ''missing.pdf'' @ apostrophe @ '' does not exist.'')))
   \<and> pdf_to_excel (example_env []) ''missing.pdf'' (Some ''out.xlsx'') (Some 1) (Some 1) (Some 0) (Some 0)
     = ([Print (''File error: The input file '' @ apostrophe @ ''missing.pdf'' @ apostrophe @ '' does not exist.'')],
        Returned ())
   \<and> snd (main (example_env []) (example_args ''missing.pdf'' (Some ''out.xlsx'') (Some 1) (Some 1)))
     = Returned 0"
proof -
  have t: "pdf_to_excel_try (example_env []) ''missing.pdf'' (Some ''out.xlsx'') (Some 1) (Some 1) (Some 0) (Some 0)
     = ([], Some (Exn FileNotFoundError
               (''The input file '' @ apostrophe @ ''missing.pdf'' @ apostrophe @ '' does not exist.'')))"
    by (simp add: pdf_to_excel_try_def example_env_def)
  from caught_kinds_print_once_exit_zero
         [of "example_env []" "example_args ''missing.pdf'' (Some ''out.xlsx'') (Some 1) (Some 1)"] t
  show ?thesis by (simp add: example_args_def)
qed

subsection \<open>Failures inside the page loop\<close>

text \<open>
  Claim C8 as stated does not hold: the wrapper of line 153 is the fixed text
  \<open>"Error processing PDF pages: "\<close> followed by the message of the original exception,
  and carries no page number. Here text extraction raises \<open>boom\<close> on page 1 of one
  document and on page 2 of another; the printed line is the same in both runs.
\<close>

theorem page_context_counterexample:
  "fst (pdf_to_excel (example_env first_page_failing) ''report.pdf'' (Some ''out.xlsx'')
          (Some 1) (Some 2) (Some 0) (Some 0))
     = [OpenPdf ''report.pdf'', Crop 0 (0, 0, 595, 842), ClosePdf,
        Print ''Runtime error: Error processing PDF pages: boom'']
   \<and> fst (pdf_to_excel (example_env second_page_failing) ''report.pdf'' (Some ''out.xlsx'')
          (Some 1) (Some 2) (Some 0) (Some 0))
     = [OpenPdf ''report.pdf'', Crop 0 (0, 0, 595, 842), Crop 1 (0, 0, 595, 842), ClosePdf,
        Print ''Runtime error: Error processing PDF pages: boom'']"
  by (simp add: run_defs first_page_failing_def second_page_failing_def)

text \<open>
  Claim C8, amended. On a request that passes validation, with the document open and the
  workbook created, an exception \<open>x\<close> that ends the page loop, for instance a failure
  of text or table extraction, is re-raised as \<open>RuntimeError\<close> with the message
  \<open>"Error processing PDF pages: " + str(x)\<close>, the document is closed, and the routine
  prints that message after \<open>"Runtime error: "\<close> and returns. Nothing in the message
  tells the page.
\<close>

theorem loop_error_wrapped_without_page:
  assumes "path_exists env inp" and "endswith (lower inp) ''.pdf''"
    and "endswith (lower out') ''.xlsx''"
    and "pdfplumber_open env inp = Inr pages" and "Workbook_raises env = None"
    and "page_loop pages (mm_to_points h) (mm_to_points f) [s - 1..e - 1] (initial_state inp)
           = (st', Some x)"
  shows "pdf_to_excel_try env inp (Some out') (Some s) (Some e) (Some h) (Some f)
           = (trace st' @ [ClosePdf],
              Some (Exn RuntimeError (''Error processing PDF pages: '' @ msg x)))
       \<and> pdf_to_excel env inp (Some out') (Some s) (Some e) (Some h) (Some f)
           = (trace st' @ [ClosePdf,
                Print (''Runtime error: Error processing PDF pages: '' @ msg x)], Returned ())"
proof -
  have t: "pdf_to_excel_try env inp (Some out') (Some s) (Some e) (Some h) (Some f)
           = (trace st' @ [ClosePdf],
              Some (Exn RuntimeError (''Error processing PDF pages: '' @ msg x)))"
    using assms by (simp add: try_valid page_loop_try_def page_range_def)
  then have p: "pdf_to_excel env inp (Some out') (Some s) (Some e) (Some h) (Some f)
           = (trace st' @ [ClosePdf,
                Print (''Runtime error: Error processing PDF pages: '' @ msg x)], Returned ())"
    by (simp add: pdf_to_excel_def)
  from t p show ?thesis by blast
qed

theorem loop_error_wrapped_without_page_witness:
  "path_exists (example_env second_page_failing) ''report.pdf''
   \<and> endswith (lower ''report.pdf'') ''.pdf'' \<and> endswith (lower ''out.xlsx'') ''.xlsx''
   \<and> pdfplumber_open (example_env second_page_failing) ''report.pdf'' = Inr second_page_failing
   \<and> Workbook_raises (example_env second_page_failing) = None
   \<and> page_loop second_page_failing (mm_to_points 0) (mm_to_points 0) [1 - 1..2 - 1]
        (initial_state ''report.pdf'')
      = (\<lparr>workbook = [\<lparr>title = ''Text_Body'', cells = Map.empty\<rparr>],
          all_text = [''Page 1:'' @ [CHR 0x0A] @ ''x''],
          trace = [OpenPdf ''report.pdf'', Crop 0 (0, 0, 595, 842), Crop 1 (0, 0, 595, 842)]\<rparr>,
         Some (Exn OtherException ''boom''))
   \<and> pdf_to_excel (example_env second_page_failing) ''report.pdf'' (Some ''out.xlsx'')
        (Some 1) (Some 2) (Some 0) (Some 0)
      = ([OpenPdf ''report.pdf'', Crop 0 (0, 0, 595, 842), Crop 1 (0, 0, 595, 842), ClosePdf,
          Print ''Runtime error: Error processing PDF pages: boom''], Returned ())"
proof -
  have a: "path_exists (example_env second_page_failing) ''report.pdf''"
    and b: "endswith (lower ''report.pdf'') ''.pdf''" and c: "endswith (lower ''out.xlsx'') ''.xlsx''"
    and d: "pdfplumber_open (example_env second_page_failing) ''report.pdf'' = Inr second_page_failing"
    and e: "Workbook_raises (example_env second_page_failing) = None"
    by (simp_all add: example_env_def lower_def lower_char_def endswith_def)
  have l: "page_loop second_page_failing (mm_to_points 0) (mm_to_points 0) [1 - 1..2 - 1]
        (initial_state ''report.pdf'')
      = (\<lparr>workbook = [\<lparr>title = ''Text_Body'', cells = Map.empty\<rparr>],
          all_text = [''Page 1:'' @ [CHR 0x0A] @ ''x''],
          trace = [OpenPdf ''report.pdf'', Crop 0 (0, 0, 595, 842), Crop 1 (0, 0, 595, 842)]\<rparr>,
         Some (Exn OtherException ''boom''))"
    by (simp add: run_defs second_page_failing_def)
  from loop_error_wrapped_without_page[OF a b c d e l] a b c d e l show ?thesis by simp
qed

subsection \<open>Omitted arguments\<close>

text \<open>
  Claim C9 as stated does not hold for the two page numbers: \<^verbatim>\<open>range(start_page - 1,
  end_page)\<close> is evaluated inside the \<^verbatim>\<open>try\<close> of line 126, so the \<open>TypeError\<close>
  of an omitted page number is re-raised as \<open>RuntimeError\<close>, which has a handler. The
  routine prints a line and returns.
\<close>

theorem null_start_page_counterexample:
  "pdf_to_excel (example_env [example_page (Some ''x'') []]) ''report.pdf'' (Some ''out.xlsx'')
      None (Some 1) (Some 0) (Some 0)
   = ([OpenPdf ''report.pdf'', ClosePdf,
       Print (''Runtime error: Error processing PDF pages: unsupported operand type(s) for -: 'NoneType' and 'int''
              @ apostrophe)],
      Returned ())"
  by (simp add: run_defs)

text \<open>
  Claim C9, amended. With an existing input whose name ends in \<open>.pdf\<close>: an omitted
  output path raises \<open>AttributeError\<close> at the suffix test, and an omitted header or
  footer height raises \<open>TypeError\<close> at the conversion; neither class has a handler, so
  the exception leaves the routine, and nothing has been opened. An omitted start or end
  page, with the other arguments in order, the document open and the workbook created,
  fails inside the loop's \<^verbatim>\<open>try\<close>: the document is closed, one line starting
  \<open>"Runtime error: Error processing PDF pages: "\<close> is printed, and the routine returns.
\<close>

theorem null_arguments:
  assumes "path_exists env inp" and "endswith (lower inp) ''.pdf''"
  shows "(\<exists>x. pdf_to_excel env inp None sp ep hh fh = ([], Raised x) \<and> cls x = AttributeError)
       \<and> (endswith (lower out') ''.xlsx'' \<and> (hh = None \<or> fh = None)
            \<longrightarrow> (\<exists>x. pdf_to_excel env inp (Some out') sp ep hh fh = ([], Raised x)
                     \<and> cls x = TypeError))
       \<and> (endswith (lower out') ''.xlsx'' \<and> pdfplumber_open env inp = Inr pages
            \<and> Workbook_raises env = None \<and> (sp = None \<or> ep = None)
            \<longrightarrow> (\<exists>m. pdf_to_excel env inp (Some out') sp ep (Some h) (Some f)
                       = ([OpenPdf inp, ClosePdf,
                           Print (''Runtime error: Error processing PDF pages: '' @ m)],
                          Returned ())))"
proof (intro conjI impI)
  show "\<exists>x. pdf_to_excel env inp None sp ep hh fh = ([], Raised x) \<and> cls x = AttributeError"
    using assms by (simp add: pdf_to_excel_def pdf_to_excel_try_def)
next
  assume "endswith (lower out') ''.xlsx'' \<and> (hh = None \<or> fh = None)"
  with assms show "\<exists>x. pdf_to_excel env inp (Some out') sp ep hh fh = ([], Raised x)
                     \<and> cls x = TypeError"
    by (auto simp: pdf_to_excel_def pdf_to_excel_try_def mm_to_points_call_def
        split: option.splits)
next
  assume a: "endswith (lower out') ''.xlsx'' \<and> pdfplumber_open env inp = Inr pages
            \<and> Workbook_raises env = None \<and> (sp = None \<or> ep = None)"
  then have "\<exists>x. page_range sp ep = Inl x"
    by (cases sp; cases ep) (auto simp: page_range_def)
  then obtain x where r: "page_range sp ep = Inl x" ..
  have "pdf_to_excel_try env inp (Some out') sp ep (Some h) (Some f)
          = ([OpenPdf inp, ClosePdf],
             Some (Exn RuntimeError (''Error processing PDF pages: '' @ msg x)))"
    using assms a r by (simp add: try_valid page_loop_try_def initial_state_def)
  then have "pdf_to_excel env inp (Some out') sp ep (Some h) (Some f)
                       = ([OpenPdf inp, ClosePdf,
                           Print (''Runtime error: Error processing PDF pages: '' @ msg x)],
                          Returned ())"
    by (simp add: pdf_to_excel_def)
  then show "\<exists>m. pdf_to_excel env inp (Some out') sp ep (Some h) (Some f)
                       = ([OpenPdf inp, ClosePdf,
                           Print (''Runtime error: Error processing PDF pages: '' @ m)],
                          Returned ())" by blast
qed

theorem null_arguments_witness:
  "path_exists (example_env []) ''report.pdf'' \<and> endswith (lower ''report.pdf'') ''.pdf''
   \<and> endswith (lower ''out.xlsx'') ''.xlsx''
   \<and> pdfplumber_open (example_env []) ''report.pdf'' = Inr []
   \<and> Workbook_raises (example_env []) = None
   \<and> (\<exists>x. pdf_to_excel (example_env []) ''report.pdf'' None (Some 1) (Some 1) (Some 0) (Some 0)
              = ([], Raised x) \<and> cls x = AttributeError)
   \<and> (\<exists>x. pdf_to_excel (example_env []) ''report.pdf'' (Some ''out.xlsx'') (Some 1) (Some 1) None (Some 0)
              = ([], Raised x) \<and> cls x = TypeError)
   \<and> (\<exists>m. pdf_to_excel (example_env []) ''report.pdf'' (Some ''out.xlsx'') (Some 1) None (Some 0) (Some 0)
              = ([OpenPdf ''report.pdf'', ClosePdf,
                  Print (''Runtime error: Error processing PDF pages: '' @ m)], Returned ()))"
proof -
  have a: "path_exists (example_env []) ''report.pdf''"
    and b: "endswith (lower ''report.pdf'') ''.pdf''"
    and c: "endswith (lower ''out.xlsx'') ''.xlsx''"
    and d: "pdfplumber_open (example_env []) ''report.pdf'' = Inr []"
    and e: "Workbook_raises (example_env []) = None"
    by (simp_all add: example_env_def lower_def lower_char_def endswith_def)
  from null_arguments[OF a b, where sp = "Some 1" and ep = "Some 1" and hh = "Some 0" and fh = "Some 0"]
  have 1: "\<exists>x. pdf_to_excel (example_env []) ''report.pdf'' None (Some 1) (Some 1) (Some 0) (Some 0)
              = ([], Raised x) \<and> cls x = AttributeError" by blast
  from null_arguments[OF a b, where sp = "Some 1" and ep = "Some 1" and hh = None and fh = "Some 0"
                        and out' = "''out.xlsx''"] c
  have 2: "\<exists>x. pdf_to_excel (example_env []) ''report.pdf'' (Some ''out.xlsx'') (Some 1) (Some 1) None (Some 0)
              = ([], Raised x) \<and> cls x = TypeError" by blast
  from null_arguments[OF a b, where sp = "Some 1" and ep = None and out' = "''out.xlsx''"
                        and pages = "[]" and h = 0 and f = 0] c d e
  have 3: "\<exists>m. pdf_to_excel (example_env []) ''report.pdf'' (Some ''out.xlsx'') (Some 1) None (Some 0) (Some 0)
              = ([OpenPdf ''report.pdf'', ClosePdf,
                  Print (''Runtime error: Error processing PDF pages: '' @ m)], Returned ())" by blast
  from a b c d e 1 2 3 show ?thesis by blast
qed

subsection \<open>A start page below 1\<close>

text \<open>
  Claim C10. For a document with at least one page and a start page \<open>s \<le> 0\<close> with
  \<open>s - 1\<close> not below minus the page count, and \<open>s \<le> e\<close> so that the loop runs: the
  first index of the range is \<open>s - 1\<close>, the lookup \<open>pages[s - 1]\<close> succeeds, with no
  \<open>IndexError\<close>, and yields the page counted from the end; that page is the one cropped,
  and its non-empty text is collected under the label \<open>"Page s:"\<close>, for \<open>s = 0\<close>
  \<open>"Page 0:"\<close>.
\<close>

theorem nonpositive_start_page_reads_from_end:
  assumes "pages \<noteq> []" and "s \<le> 0" and "- int (length pages) \<le> s - 1" and "s \<le> e"
  shows "\<exists>idxs p. page_range (Some s) (Some e) = Inr idxs \<and> idxs \<noteq> [] \<and> hd idxs = s - 1
           \<and> p = pages ! nat (int (length pages) + (s - 1))
           \<and> pages_get pages (hd idxs) = Inr p
           \<and> (\<forall>hh fh st. trace (fst (process_page pages hh fh (hd idxs) st))
                 = trace st @ [Crop (s - 1) (0, hh, width p, height p - fh)])
           \<and> (\<forall>hh fh st v t.
                 within_bbox p (0, hh, width p, height p - fh) = Inr v
                 \<and> extract_text v = Inr (Some t) \<and> t \<noteq> []
                 \<longrightarrow> all_text (fst (process_page pages hh fh (hd idxs) st))
                       = all_text st @ [''Page '' @ str_int s @ '':'' @ [CHR 0x0A] @ t])"
proof -
  let ?p = "pages ! nat (int (length pages) + (s - 1))"
  have r: "page_range (Some s) (Some e) = Inr [s - 1..e - 1]" by (simp add: page_range_def)
  from assms(4) have u: "[s - 1..e - 1] = (s - 1) # [s - 1 + 1..e - 1]"
    by (intro upto_rec1) simp
  have ne: "[s - 1..e - 1] \<noteq> []" and h: "hd [s - 1..e - 1] = s - 1"
    by (subst u, simp)+
  from assms have g: "pages_get pages (s - 1) = Inr ?p" by (simp add: pages_get_def)
  have tr: "trace (fst (process_page pages hh fh (s - 1) st))
                 = trace st @ [Crop (s - 1) (0, hh, width ?p, height ?p - fh)]" for hh fh st
    using process_page_trace[of pages hh fh "s - 1" st] by (simp add: g)
  have lbl: "all_text (fst (process_page pages hh fh (s - 1) st))
                       = all_text st @ [''Page '' @ str_int s @ '':'' @ [CHR 0x0A] @ t]"
    if w: "within_bbox ?p (0, hh, width ?p, height ?p - fh) = Inr v"
      and x: "extract_text v = Inr (Some t)" and n: "t \<noteq> []" for hh fh st v t
    by (cases "extract_tables v")
       (simp_all add: process_page_def g w x n Let_def split: prod.splits)
  show ?thesis
    apply (rule exI[of _ "[s - 1..e - 1]"])
    apply (rule exI[of _ ?p])
    apply (simp only: h)
    apply (intro conjI allI impI)
          apply (rule r)
         apply (rule ne)
        apply (rule refl)
       apply (rule refl)
      apply (rule g)
     apply (rule tr)
    apply (erule conjE)+
    apply (rule lbl)
      apply assumption+
    done
qed

theorem nonpositive_start_page_reads_from_end_witness:
  "[example_page (Some ''first'') [], example_page (Some ''last'') []] \<noteq> [] \<and> (0::int) \<le> 0
   \<and> - int (length [example_page (Some ''first'') [], example_page (Some ''last'') []]) \<le> 0 - 1
   \<and> (0::int) \<le> 0
   \<and> pages_get [example_page (Some ''first'') [], example_page (Some ''last'') []] (0 - 1)
        = Inr (example_page (Some ''last'') [])
   \<and> fst (pdf_to_excel (example_env [example_page (Some ''first'') [], example_page (Some ''last'') []])
             ''report.pdf'' (Some ''out.xlsx'') (Some 0) (Some 0) (Some 0) (Some 0))
      = [OpenPdf ''report.pdf'', Crop (- 1) (0, 0, 595, 842), ClosePdf,
         Save ''out.xlsx'' [text_sheet [''Page 0:'' @ [CHR 0x0A] @ ''last'']],
         Print ''PDF data successfully converted to out.xlsx'']"
proof -
  have a: "[example_page (Some ''first'') [], example_page (Some ''last'') []] \<noteq> []" by simp
  have b: "(0::int) \<le> 0" by simp
  have c: "- int (length [example_page (Some ''first'') [], example_page (Some ''last'') []]) \<le> 0 - 1"
    by simp
  from nonpositive_start_page_reads_from_end[OF a b c b]
  have g: "pages_get [example_page (Some ''first'') [], example_page (Some ''last'') []] (0 - 1)
        = Inr (example_page (Some ''last'') [])"
    by auto
  have run: "fst (pdf_to_excel (example_env [example_page (Some ''first'') [], example_page (Some ''last'') []])
             ''report.pdf'' (Some ''out.xlsx'') (Some 0) (Some 0) (Some 0) (Some 0))
      = [OpenPdf ''report.pdf'', Crop (- 1) (0, 0, 595, 842), ClosePdf,
         Save ''out.xlsx'' [text_sheet [''Page 0:'' @ [CHR 0x0A] @ ''last'']],
         Print ''PDF data successfully converted to out.xlsx'']"
    by (simp add: run_defs write_text_to_sheet_fresh)
  from a b c g run show ?thesis by blast
qed

subsection \<open>A page beyond the end of the document\<close>

text \<open>
  Claim C1 asks for the \<open>IndexError\<close> kind. The routine raises \<open>IndexError\<close> with the
  page number and the page count at line 132 and has a clause \<^verbatim>\<open>except IndexError\<close>
  printing \<open>"Index error: "\<close>, but line 132 lies inside the \<^verbatim>\<open>try\<close> of line 126,
  whose \<^verbatim>\<open>except Exception\<close> turns the error into a \<open>RuntimeError\<close>. On a
  one-page document and the pages 1 to 2, the failure that leaves the body is a
  \<open>RuntimeError\<close> and the line printed starts with \<open>"Runtime error: "\<close>. The message
  still names page 2 and the count 1, page 1 was processed and no later page, the document
  is closed and \<^verbatim>\<open>workbook.save\<close> is never called.
\<close>

theorem out_of_range_reported_as_runtime_error:
  "pdf_to_excel_try (example_env [example_page (Some ''hello'') []]) ''report.pdf'' (Some ''out.xlsx'')
      (Some 1) (Some 2) (Some 0) (Some 0)
   = ([OpenPdf ''report.pdf'', Crop 0 (0, 0, 595, 842), ClosePdf],
      Some (Exn RuntimeError
              ''Error processing PDF pages: Page 2 is out of range. The PDF has 1 pages.''))
   \<and> pdf_to_excel (example_env [example_page (Some ''hello'') []]) ''report.pdf'' (Some ''out.xlsx'')
      (Some 1) (Some 2) (Some 0) (Some 0)
   = ([OpenPdf ''report.pdf'', Crop 0 (0, 0, 595, 842), ClosePdf,
       Print ''Runtime error: Error processing PDF pages: Page 2 is out of range. The PDF has 1 pages.''],
      Returned ())"
  by (simp add: run_defs)

subsection \<open>Closing the document\<close>

text \<open>
  Claim C2 asks that the document be closed on every path after it was opened. The
  \<^verbatim>\<open>finally\<close> clause that closes it belongs to the \<^verbatim>\<open>try\<close> of line 126, and
  the workbook is created before that, at lines 119 to 124. When \<^verbatim>\<open>Workbook()\<close>
  raises, the trace ends after \<open>OpenPdf\<close>: the document stays open.
\<close>

theorem document_left_open_when_workbook_fails:
  "pdf_to_excel (workbook_failing_env [example_page (Some ''hello'') []]) ''report.pdf''
      (Some ''out.xlsx'') (Some 1) (Some 1) (Some 0) (Some 0)
   = ([OpenPdf ''report.pdf''], Raised (Exn OtherException ''out of memory''))"
  by (simp add: run_defs workbook_failing_env_def)

text \<open>Once the workbook exists, every path closes the document.\<close>

lemma closed_once_workbook_exists:
  assumes "OpenPdf p \<in> set (fst (pdf_to_excel env inp out sp ep hh fh))"
    and "Workbook_raises env = None"
  shows "ClosePdf \<in> set (fst (pdf_to_excel env inp out sp ep hh fh))"
  using assms
  by (auto simp: pdf_to_excel_def pdf_to_excel_try_def mm_to_points_call_def page_loop_try_def
        Let_def
      split: if_splits option.splits sum.splits prod.splits)

subsection \<open>Sheet titles\<close>

text \<open>
  The decimal rendering of a number is injective and free of underscores, so the title
  \<open>Table_Page_n_k\<close> determines \<open>n\<close> and \<open>k\<close>, and the titles of a saved workbook
  are pairwise distinct: the library never has to rename a sheet to keep titles unique.
\<close>

lemma str_nat_not_Nil: "str_nat n \<noteq> []"
  by (subst str_nat.simps) simp

lemma digit_char_inj: "n < 10 \<Longrightarrow> m < 10 \<Longrightarrow> digit_char n = digit_char m \<Longrightarrow> n = m"
proof -
  assume a: "n < 10" "m < 10" "digit_char n = digit_char m"
  have d: "distinct ''0123456789''" by simp
  have l: "length ''0123456789'' = 10" by simp
  from a show "n = m"
    unfolding digit_char_def using nth_eq_iff_index_eq[OF d, of n m] l by simp
qed

lemma digit_char_in: "n < 10 \<Longrightarrow> digit_char n \<in> set ''0123456789''"
  unfolding digit_char_def by (rule nth_mem) simp

lemma str_nat_digits: "set (str_nat n) \<subseteq> set ''0123456789''"
proof (induction n rule: str_nat.induct)
  case (1 n)
  show ?case
  proof (cases "n < 10")
    case True
    then have "str_nat n = [digit_char n]" by (subst str_nat.simps) simp
    with digit_char_in[OF True] show ?thesis by simp
  next
    case False
    then have "str_nat n = str_nat (n div 10) @ [digit_char (n mod 10)]"
      by (subst str_nat.simps) simp
    moreover have "digit_char (n mod 10) \<in> set ''0123456789''" by (rule digit_char_in) simp
    ultimately show ?thesis using 1[OF False] by simp
  qed
qed

lemma str_nat_inj: "str_nat n = str_nat m \<Longrightarrow> n = m"
proof (induction n arbitrary: m rule: str_nat.induct)
  case (1 n)
  show ?case
  proof (cases "n < 10")
    case n: True
    then have sn: "str_nat n = [digit_char n]" by (subst str_nat.simps) simp
    show ?thesis
    proof (cases "m < 10")
      case True
      then have "str_nat m = [digit_char m]" by (subst str_nat.simps) simp
      with sn "1.prems" have "digit_char n = digit_char m" by simp
      with n True show ?thesis by (rule digit_char_inj)
    next
      case False
      then have "str_nat m = str_nat (m div 10) @ [digit_char (m mod 10)]"
        by (subst str_nat.simps) simp
      with sn "1.prems" have "str_nat (m div 10) = []" by simp
      with str_nat_not_Nil show ?thesis by blast
    qed
  next
    case n: False
    then have sn: "str_nat n = str_nat (n div 10) @ [digit_char (n mod 10)]"
      by (subst str_nat.simps) simp
    show ?thesis
    proof (cases "m < 10")
      case True
      then have "str_nat m = [digit_char m]" by (subst str_nat.simps) simp
      with sn "1.prems" have "str_nat (n div 10) = []" by simp
      with str_nat_not_Nil show ?thesis by blast
    next
      case False
      then have "str_nat m = str_nat (m div 10) @ [digit_char (m mod 10)]"
        by (subst str_nat.simps) simp
      with sn "1.prems" have a: "str_nat (n div 10) = str_nat (m div 10)"
        and b: "digit_char (n mod 10) = digit_char (m mod 10)" by simp_all
      from "1.IH"[OF n a] have "n div 10 = m div 10" .
      moreover from b have "n mod 10 = m mod 10" by (intro digit_char_inj) simp_all
      ultimately have "10 * (n div 10) + n mod 10 = 10 * (m div 10) + m mod 10" by simp
      then show ?thesis by (simp only: mult_div_mod_eq)
    qed
  qed
qed

lemma str_nat_avoids: "c \<notin> set ''0123456789'' \<Longrightarrow> c \<notin> set (str_nat n)"
  using str_nat_digits[of n] by (rule contra_subsetD)

lemma str_int_no_underscore: "CHR ''_'' \<notin> set (str_int i)"
proof -
  have "CHR ''_'' \<notin> set (str_nat n)" for n by (rule str_nat_avoids) simp
  then show ?thesis by (simp add: str_int_def)
qed

lemma str_int_inj: "str_int i = str_int j \<Longrightarrow> i = j"
proof -
  assume a: "str_int i = str_int j"
  have neg: "CHR ''-'' \<notin> set (str_nat n)" for n by (rule str_nat_avoids) simp
  have hdn: "hd (str_nat n) \<noteq> CHR ''-''" for n
    using neg[of n] str_nat_not_Nil[of n] by (cases "str_nat n") auto
  show "i = j"
  proof (cases "i < 0")
    case i: True
    show ?thesis
    proof (cases "j < 0")
      case True
      with i a have "str_nat (nat (- i)) = str_nat (nat (- j))" by (simp add: str_int_def)
      from str_nat_inj[OF this] i True show ?thesis by simp
    next
      case False
      with i a have "CHR ''-'' # str_nat (nat (- i)) = str_nat (nat j)" by (simp add: str_int_def)
      with hdn[of "nat j"] show ?thesis by (metis list.sel(1))
    qed
  next
    case i: False
    show ?thesis
    proof (cases "j < 0")
      case True
      with i a have "str_nat (nat i) = CHR ''-'' # str_nat (nat (- j))" by (simp add: str_int_def)
      with hdn[of "nat i"] show ?thesis by (metis list.sel(1))
    next
      case False
      with i a have "str_nat (nat i) = str_nat (nat j)" by (simp add: str_int_def)
      from str_nat_inj[OF this] i False show ?thesis by simp
    qed
  qed
qed

lemma takeWhile_upto_separator: "c \<notin> set xs \<Longrightarrow> takeWhile (\<lambda>x. x \<noteq> c) (xs @ c # ys) = xs"
  by (induction xs) auto

lemma split_at_separator:
  assumes "xs @ c # ys = xs' @ c # ys'" and "c \<notin> set xs" and "c \<notin> set xs'"
  shows "xs = xs' \<and> ys = ys'"
proof -
  have "takeWhile (\<lambda>x. x \<noteq> c) (xs @ c # ys) = xs"
    using assms(2) by (rule takeWhile_upto_separator)
  moreover have "takeWhile (\<lambda>x. x \<noteq> c) (xs' @ c # ys') = xs'"
    using assms(3) by (rule takeWhile_upto_separator)
  ultimately have "xs = xs'" using assms(1) by simp
  with assms(1) show ?thesis by simp
qed

lemma table_title_inj:
  assumes "title (table_sheet n k tbl) = title (table_sheet n' k' tbl')"
  shows "n = n' \<and> k = k'"
proof -
  from assms have "str_int n @ CHR ''_'' # str_nat k = str_int n' @ CHR ''_'' # str_nat k'"
    by (simp add: table_sheet_def)
  moreover have "CHR ''_'' \<notin> set (str_int n)" "CHR ''_'' \<notin> set (str_int n')"
    by (rule str_int_no_underscore)+
  ultimately have "str_int n = str_int n' \<and> str_nat k = str_nat k'"
    by (rule split_at_separator)
  then show ?thesis using str_int_inj str_nat_inj by blast
qed

lemma table_title_not_text_body: "title (table_sheet n k tbl) \<noteq> ''Text_Body''"
  by (simp add: table_sheet_def)

lemma distinct_keyed_concat:
  assumes "distinct ns" and "\<And>n. distinct (ks n)"
  shows "distinct (concat (map (\<lambda>n. map (Pair n) (ks n)) ns))"
  using assms(1)
proof (induction ns)
  case Nil
  then show ?case by simp
next
  case (Cons n ns)
  have "distinct (map (Pair n) (ks n))"
    using assms(2)[of n] by (simp add: distinct_map inj_on_def)
  moreover have "distinct (concat (map (\<lambda>n. map (Pair n) (ks n)) ns))"
    using Cons by simp
  moreover have "set (map (Pair n) (ks n)) \<inter> set (concat (map (\<lambda>n. map (Pair n) (ks n)) ns)) = {}"
    using Cons.prems by auto
  ultimately show ?case by simp
qed

lemma table_titles_as_keys:
  "map title (concat (map (\<lambda>n. map (\<lambda>(k, tbl). table_sheet n k (stored_table tbl))
                                    (enumerate 1 (T n))) ns))
     = map (\<lambda>(n, k). ''Table_Page_'' @ str_int n @ ''_'' @ str_nat k)
           (concat (map (\<lambda>n. map (Pair n) [1..<1 + length (T n)]) ns))"
proof (induction ns)
  case Nil
  then show ?case by simp
next
  case (Cons n ns)
  have "map title (map (\<lambda>(k, tbl). table_sheet n k (stored_table tbl)) (enumerate 1 (T n)))
          = map ((\<lambda>k. ''Table_Page_'' @ str_int n @ ''_'' @ str_nat k) \<circ> fst) (enumerate 1 (T n))"
    by (simp add: table_sheet_def case_prod_unfold o_def del: One_nat_def)
  also have "\<dots> = map (\<lambda>k. ''Table_Page_'' @ str_int n @ ''_'' @ str_nat k)
                      (map fst (enumerate 1 (T n)))"
    by (simp only: map_map)
  also have "map fst (enumerate 1 (T n)) = [1..<1 + length (T n)]"
    by (rule map_fst_enumerate)
  also have "map (\<lambda>k. ''Table_Page_'' @ str_int n @ ''_'' @ str_nat k) [1..<1 + length (T n)]
               = map (\<lambda>(n, k). ''Table_Page_'' @ str_int n @ ''_'' @ str_nat k)
                      (map (Pair n) [1..<1 + length (T n)])"
    by (simp add: o_def del: One_nat_def)
  finally show ?case using Cons by (simp del: One_nat_def)
qed

lemma table_name_inj:
  "inj (\<lambda>(n, k). ''Table_Page_'' @ str_int n @ ''_'' @ str_nat k)"
proof (rule injI)
  fix x y :: "int \<times> nat"
  obtain n k n' k' where x: "x = (n, k)" and y: "y = (n', k')" by (cases x, cases y) blast
  assume "(case x of (n, k) \<Rightarrow> ''Table_Page_'' @ str_int n @ ''_'' @ str_nat k)
        = (case y of (n, k) \<Rightarrow> ''Table_Page_'' @ str_int n @ ''_'' @ str_nat k)"
  then have "title (table_sheet n k []) = title (table_sheet n' k' [])"
    by (simp add: table_sheet_def x y)
  from table_title_inj[OF this] show "x = y" by (simp add: x y)
qed

lemma saved_titles_distinct:
  assumes "Save path wb \<in> set (fst (pdf_to_excel env inp (Some out') (Some s) (Some e) (Some h) (Some f)))"
    and "pdfplumber_open env inp = Inr pages"
  shows "distinct (map title wb)"
proof -
  let ?T = "page_tables pages (mm_to_points h) (mm_to_points f)"
  let ?keys = "concat (map (\<lambda>n. map (Pair n) [1..<1 + length (?T n)]) [s..e])"
  let ?name = "\<lambda>(n, k). ''Table_Page_'' @ str_int n @ ''_'' @ str_nat k"
  from saved_workbook(2)[OF assms]
  have wb: "map title wb = ''Text_Body'' # map ?name ?keys"
    by (simp add: page_table_sheets_def[abs_def] table_titles_as_keys text_sheet_def
          del: One_nat_def)
  have k: "distinct ?keys" by (rule distinct_keyed_concat) simp_all
  have d: "distinct (map ?name ?keys)"
    unfolding distinct_map using k inj_on_subset[OF table_name_inj subset_UNIV] by blast
  have "''Text_Body'' \<notin> set (map ?name ?keys)" by auto
  with d show ?thesis by (simp only: wb distinct.simps) simp
qed

end
